theory Spec2Isabelle
  imports Complex_Main "HOL-Library.Word" "HOL-Library.Signed_Division" "HOL-Library.AList"
begin

section \<open>Data model of the tier-move command\<close>

text \<open>
  The topology snapshot is the protobuf tree the command receives from the master:
  data centers, racks, data nodes, disks and volumes. Only the fields the command reads
  are kept. \<open>uint32\<close>, \<open>uint64\<close> and \<open>int64\<close> fields are machine words; an \<open>int64\<close> is
  read with \<open>sint\<close>. A Go \<open>map[string]*DiskInfo\<close> is an association list: its order is the
  order in which \<open>range\<close> happens to visit the entries in this run, a lookup is \<open>map_of\<close>.
\<close>

type_synonym VolumeId = "32 word"

record VolumeInformationMessage =
  volId :: "32 word"
  volSize :: "64 word"
  volCollection :: string
  volModifiedAtSecond :: "64 word"
  volDiskType :: string

record DiskInfo =
  diVolumeCount :: "64 word"
  diMaxVolumeCount :: "64 word"
  diVolumeInfos :: "VolumeInformationMessage list"

record DataNodeInfo =
  dnId :: string
  dnDiskInfos :: "(string \<times> DiskInfo) list"

record RackInfo =
  rackId :: string
  rackDataNodeInfos :: "DataNodeInfo list"

record DataCenterInfo =
  dcId :: string
  dcRackInfos :: "RackInfo list"

record TopologyInfo =
  topoDataCenterInfos :: "DataCenterInfo list"

text \<open>
  \<open>float64\<close> arithmetic is a primitive of the language. The selector uses one conversion
  from an unsigned integer, a division, three multiplications and one comparison; they are
  taken as the operations of a record, so that everything proved holds for IEEE rounding
  as for exact arithmetic. \<open>exact_ops\<close> is the instance on the rationals.
\<close>

record 'f float64_ops =
  f_of_nat :: "nat \<Rightarrow> 'f"
  f_div :: "'f \<Rightarrow> 'f \<Rightarrow> 'f"
  f_mul :: "'f \<Rightarrow> 'f \<Rightarrow> 'f"
  f_gt :: "'f \<Rightarrow> 'f \<Rightarrow> bool"

definition exact_ops :: "rat float64_ops" where
  "exact_ops = \<lparr> f_of_nat = of_nat, f_div = (\<lambda>a b. a / b), f_mul = (\<lambda>a b. a * b),
                 f_gt = (\<lambda>a b. b < a) \<rparr>"

text \<open>
  What the selector takes from outside the command: the float operations,
  \<open>filepath.Match\<close> (\<open>Inl\<close> is \<open>ErrBadPattern\<close>), \<open>types.ToDiskType\<close> and the clock
  (\<open>time.Now().Unix()\<close>, an \<open>int64\<close>).
\<close>

datatype match_error = ErrBadPattern

record 'f selector_env =
  se_ops :: "'f float64_ops"
  se_Match :: "string \<Rightarrow> string \<Rightarrow> match_error + bool"
  se_ToDiskType :: "string \<Rightarrow> string"
  se_nowUnixSeconds :: "64 word"

section \<open>collectVolumeIdsForTierChange\<close>

text \<open>\<open>int64(quietPeriod / time.Second)\<close>: Go's integer division truncates towards zero.\<close>

definition quietSecondsOf :: "64 word \<Rightarrow> 64 word" where
  "quietSecondsOf quietPeriod = word_of_int (sint quietPeriod sdiv 1000000000)"

text \<open>\<open>fullPercentage/100*float64(volumeSizeLimitMb)*1024*1024\<close>, evaluated left to right.\<close>

definition sizeThreshold :: "'f float64_ops \<Rightarrow> 'f \<Rightarrow> 64 word \<Rightarrow> 'f" where
  "sizeThreshold ops fullPercentage volumeSizeLimitMb =
     f_mul ops
       (f_mul ops
          (f_mul ops (f_div ops fullPercentage (f_of_nat ops 100))
                     (f_of_nat ops (unat volumeSizeLimitMb)))
          (f_of_nat ops 1024))
       (f_of_nat ops 1024)"

text \<open>
  The two nested conditions of lines 218 to 222: the \<open>int64\<close> sum
  \<open>v.ModifiedAtSecond+quietSeconds\<close> wraps around, the comparison is signed.
\<close>

definition isQuietAndOnTier :: "'f selector_env \<Rightarrow> string \<Rightarrow> 64 word \<Rightarrow> VolumeInformationMessage \<Rightarrow> bool" where
  "isQuietAndOnTier env sourceTier quietSeconds v \<longleftrightarrow>
     sint (volModifiedAtSecond v + quietSeconds) < sint (se_nowUnixSeconds env)
     \<and> se_ToDiskType env (volDiskType v) = sourceTier"

definition isFullEnough :: "'f selector_env \<Rightarrow> 64 word \<Rightarrow> 'f \<Rightarrow> VolumeInformationMessage \<Rightarrow> bool" where
  "isFullEnough env volumeSizeLimitMb fullPercentage v \<longleftrightarrow>
     f_gt (se_ops env) (f_of_nat (se_ops env) (unat (volSize v)))
          (sizeThreshold (se_ops env) fullPercentage volumeSizeLimitMb)"

text \<open>
  One pass of the innermost loop body. \<open>Return\<close> is the \<open>return\<close> of line 211, which
  leaves the callback of the current data node; \<open>Continue\<close> goes to the next volume without
  marking this one; \<open>Mark\<close> is \<open>vidMap[v.Id] = true\<close>.
\<close>

datatype visit = Return | Continue | Mark

definition visitVolume ::
  "'f selector_env \<Rightarrow> 64 word \<Rightarrow> string \<Rightarrow> string \<Rightarrow> 'f \<Rightarrow> 64 word \<Rightarrow> VolumeInformationMessage \<Rightarrow> visit" where
  "visitVolume env volumeSizeLimitMb sourceTier collectionPattern fullPercentage quietSeconds v =
     (let body =
        (if isQuietAndOnTier env sourceTier quietSeconds v
         then (if isFullEnough env volumeSizeLimitMb fullPercentage v then Mark else Continue)
         else Continue)
      in if collectionPattern \<noteq> []
         then (case se_Match env collectionPattern (volCollection v) of
                 Inl err \<Rightarrow> Return
               | Inr matched \<Rightarrow> if \<not> matched then Continue else body)
         else body)"

text \<open>
  \<open>vidMap\<close> is a \<open>map[uint32]bool\<close> that only ever stores \<open>true\<close>: the list of its keys,
  without repetition. Go leaves the order of the final \<open>range vidMap\<close> open; the model
  returns the keys in the order \<open>List.insert\<close> keeps them.
\<close>

fun eachVolumeInfo ::
  "(VolumeInformationMessage \<Rightarrow> visit) \<Rightarrow> VolumeInformationMessage list \<Rightarrow> VolumeId list \<Rightarrow> bool \<times> VolumeId list" where
  "eachVolumeInfo f [] vidMap = (False, vidMap)"
| "eachVolumeInfo f (v # vs) vidMap =
     (case f v of
        Return \<Rightarrow> (True, vidMap)
      | Continue \<Rightarrow> eachVolumeInfo f vs vidMap
      | Mark \<Rightarrow> eachVolumeInfo f vs (List.insert (volId v) vidMap))"

fun eachDiskInfo ::
  "(VolumeInformationMessage \<Rightarrow> visit) \<Rightarrow> (string \<times> DiskInfo) list \<Rightarrow> VolumeId list \<Rightarrow> bool \<times> VolumeId list" where
  "eachDiskInfo f [] vidMap = (False, vidMap)"
| "eachDiskInfo f (kd # ds) vidMap =
     (case eachVolumeInfo f (diVolumeInfos (snd kd)) vidMap of
        (True, vidMap') \<Rightarrow> (True, vidMap')
      | (False, vidMap') \<Rightarrow> eachDiskInfo f ds vidMap')"

text \<open>
  Modelled from the spec: \<open>eachDataNode\<close> is not among the sources. The spec has the
  selector go over every (node, disk, volume) triple of the snapshot, so the callback is
  run once on every data node of every rack of every data center, in the order of the
  snapshot.
\<close>

definition allDataNodes :: "TopologyInfo \<Rightarrow> DataNodeInfo list" where
  "allDataNodes topo = concat (map rackDataNodeInfos (concat (map dcRackInfos (topoDataCenterInfos topo))))"

definition eachDataNode :: "TopologyInfo \<Rightarrow> (DataNodeInfo \<Rightarrow> 's \<Rightarrow> 's) \<Rightarrow> 's \<Rightarrow> 's" where
  "eachDataNode topo fn s = fold fn (allDataNodes topo) s"

text \<open>
  The function returns \<open>(vids, err)\<close>. The \<open>err\<close> of line 209 is a new variable of the
  inner block, so the named result \<open>err\<close> is never assigned. The line that line 201
  prints is written where \<open>Do\<close> calls the function.
\<close>

definition collectVolumeIdsForTierChange ::
  "'f selector_env \<Rightarrow> TopologyInfo \<Rightarrow> 64 word \<Rightarrow> string \<Rightarrow> string \<Rightarrow> 'f \<Rightarrow> 64 word
     \<Rightarrow> VolumeId list \<times> match_error option" where
  "collectVolumeIdsForTierChange env topologyInfo volumeSizeLimitMb sourceTier collectionPattern
       fullPercentage quietPeriod =
     (let quietSeconds = quietSecondsOf quietPeriod;
          vidMap = eachDataNode topologyInfo
            (\<lambda>dn vidMap. snd (eachDiskInfo
                (visitVolume env volumeSizeLimitMb sourceTier collectionPattern fullPercentage quietSeconds)
                (dnDiskInfos dn) vidMap)) []
      in (vidMap, None))"

text \<open>
  Views of the snapshot used to state properties: the volumes of a data node in the order
  the callback visits them, all volumes of the snapshot, and the volumes of a node that
  the callback reaches before it returns.
\<close>

definition nodeVolumes :: "DataNodeInfo \<Rightarrow> VolumeInformationMessage list" where
  "nodeVolumes dn = concat (map (\<lambda>kd. diVolumeInfos (snd kd)) (dnDiskInfos dn))"

definition allVolumes :: "TopologyInfo \<Rightarrow> VolumeInformationMessage list" where
  "allVolumes topo = concat (map nodeVolumes (allDataNodes topo))"

definition reachedVolumes :: "(VolumeInformationMessage \<Rightarrow> visit) \<Rightarrow> DataNodeInfo \<Rightarrow> VolumeInformationMessage list" where
  "reachedVolumes f dn = takeWhile (\<lambda>v. f v \<noteq> Return) (nodeVolumes dn)"

text \<open>The \<open>int64\<close> sum of two values does not leave the range of \<open>int64\<close>.\<close>

definition sumInRange :: "64 word \<Rightarrow> 64 word \<Rightarrow> bool" where
  "sumInRange a b \<longleftrightarrow> - (2 ^ 63) \<le> sint a + sint b \<and> sint a + sint b < 2 ^ 63"

subsection \<open>Concrete inputs\<close>

text \<open>
  A stand-in for \<open>filepath.Match\<close> on which the model can be run: literal characters,
  \<open>?\<close> and \<open>*\<close> (which does not cross a \<open>/\<close>). Character classes and escapes are not
  covered: a pattern with a bracket or a backslash is reported as malformed.
\<close>

fun glob :: "string \<Rightarrow> string \<Rightarrow> bool" where
  "glob [] s = (s = [])"
| "glob (p # ps) [] = (p = CHR ''*'' \<and> glob ps [])"
| "glob (p # ps) (c # cs) =
     (if p = CHR ''*'' then glob ps (c # cs) \<or> (c \<noteq> CHR ''/'' \<and> glob (p # ps) cs)
      else (p = CHR ''?'' \<or> p = c) \<and> glob ps cs)"

definition globMatch :: "string \<Rightarrow> string \<Rightarrow> match_error + bool" where
  "globMatch pattern name =
     (if CHR ''['' \<in> set pattern \<or> CHR 0x5C \<in> set pattern then Inl ErrBadPattern
      else Inr (glob pattern name))"

text \<open>
  The scenario of the specification: tier \<open>hdd\<close>, a size limit of 30000 MB, the clock at
  1700000000. A volume is given by its id, its size in bytes and the second of its last
  write; a node by its address and the volumes of its \<open>hdd\<close> disk.
\<close>

definition scenario_env :: "rat selector_env" where
  "scenario_env = \<lparr> se_ops = exact_ops, se_Match = globMatch, se_ToDiskType = (\<lambda>s. s),
                     se_nowUnixSeconds = 1700000000 \<rparr>"

definition scenario_volume :: "32 word \<Rightarrow> 64 word \<Rightarrow> 64 word \<Rightarrow> VolumeInformationMessage" where
  "scenario_volume vid sz modifiedAt =
     \<lparr> volId = vid, volSize = sz, volCollection = ''photos'', volModifiedAtSecond = modifiedAt,
       volDiskType = ''hdd'' \<rparr>"

definition scenario_node :: "string \<Rightarrow> VolumeInformationMessage list \<Rightarrow> DataNodeInfo" where
  "scenario_node url vs =
     \<lparr> dnId = url,
       dnDiskInfos = [(''hdd'', \<lparr> diVolumeCount = of_nat (length vs), diMaxVolumeCount = 8, diVolumeInfos = vs \<rparr>),
                      (''ssd'', \<lparr> diVolumeCount = 0, diMaxVolumeCount = 8, diVolumeInfos = [] \<rparr>)] \<rparr>"

definition scenario_topology :: "DataNodeInfo list \<Rightarrow> TopologyInfo" where
  "scenario_topology dns =
     \<lparr> topoDataCenterInfos = [\<lparr> dcId = ''dc1'', dcRackInfos = [\<lparr> rackId = ''r1'', rackDataNodeInfos = dns \<rparr>] \<rparr>] \<rparr>"



definition exactly_quiet_scenario :: TopologyInfo where
  "exactly_quiet_scenario = scenario_topology [scenario_node ''n1'' [scenario_volume 7 30198988800 1699996400]]"

definition just_quiet_scenario :: TopologyInfo where
  "just_quiet_scenario = scenario_topology [scenario_node ''n1'' [scenario_volume 7 30198988800 1699996399]]"

definition two_volume_node :: DataNodeInfo where
  "two_volume_node = scenario_node ''n1'' [scenario_volume 7 30198988800 1699827200, scenario_volume 8 30198988800 1699827200]"

section \<open>Moving one volume\<close>

text \<open>
  \<open>wdclient.Location\<close> is where the master knows a replica of a volume; the shell's
  \<open>location\<close> is a data node of the snapshot with its data center and rack. In Go a
  \<open>location\<close> holds a pointer to its data node, and each data node has one \<open>location\<close>
  in \<open>allLocations\<close>: a write through the pointer is an update of that element of the
  list, which the functions below hand back.
\<close>

record Location =
  locUrl :: string
  locPublicUrl :: string

record location =
  loc_dc :: string
  loc_rack :: string
  loc_dataNode :: DataNodeInfo

text \<open>
  Every \<open>error\<close> value of the command. \<open>External\<close> is an error handed over by a
  collaborator (the lock, the master, a volume server), the others are built by
  \<open>fmt.Errorf\<close> at lines 66, 105, 176 and 179.
\<close>

datatype error =
    External string
  | PatternError match_error
  | SameTier string string
  | VolumeNotFound VolumeId
  | MarkReadonlyFailed VolumeId string error
  | MoveVolumeFailed VolumeId string string error

text \<open>
  What is not a return: a nil pointer dereference, an index out of range, and a wait on
  the condition variable that nobody will signal.
\<close>

datatype fault = NilDereference | IndexOutOfRange | Blocked

text \<open>
  The calls to the volume servers: \<open>markVolumeReadonly\<close> on the known replicas,
  \<open>LiveMoveVolume\<close> from a source to a destination with the readable name of the target
  disk type and its last argument, a flag (its timeout of five seconds is a constant), and
  \<open>deleteVolume\<close> on one server.
\<close>

datatype rpc =
    MarkVolumeReadonly VolumeId "Location list"
  | LiveMoveVolume VolumeId string string string bool
  | DeleteVolume VolumeId string

text \<open>
  The trace records, in order, the calls issued and the start and the end of the function
  literal that line 150 runs as a goroutine.
\<close>

datatype event = Call rpc | TaskStarted VolumeId | TaskFinished VolumeId

text \<open>
  The lines written, by their format: \<open>Moving\<close> is line 128, \<open>MoveFailed\<close> line 152,
  \<open>CanNotFindDiskType\<close> line 166, \<open>FailedToDelete\<close> line 189 (all four to \<open>writer\<close>);
  \<open>CollectingQuiet\<close> is line 201, \<open>TierMoveVolumes\<close> line 80 and \<open>TierMoveVolumeError\<close>
  line 85 (to the standard output).
\<close>

datatype message =
    Moving VolumeId string string string
  | MoveFailed VolumeId string string error
  | CanNotFindDiskType string VolumeId
  | FailedToDelete VolumeId string error
  | CollectingQuiet string "64 word"
  | TierMoveVolumes "VolumeId list"
  | TierMoveVolumeError VolumeId error

text \<open>
  What the mover takes from outside: the master client's lookup of the locations of a
  volume (\<open>None\<close> when not found), the capacity function and the sort of the data nodes
  (functions of the shell that are not among the sources), the readable name of a disk
  type, and the outcome of every call to a volume server (\<open>None\<close> when it succeeds).
\<close>

record move_env =
  GetLocations :: "VolumeId \<Rightarrow> Location list option"
  capacityByFreeVolumeCount :: "string \<Rightarrow> DataNodeInfo \<Rightarrow> int"
  keepDataNodesSorted :: "string \<Rightarrow> location list \<Rightarrow> location list"
  ReadableString :: "string \<Rightarrow> string"
  rpcError :: "rpc \<Rightarrow> error option"

text \<open>
  The state the command works on: the servers that hold a replica of each volume, the
  trace, the two output streams, and the \<open>activeServers\<close> set of the command.
\<close>

record state =
  replicas :: "VolumeId \<Rightarrow> string set"
  trace :: "event list"
  writer :: "message list"
  stdout :: "message list"
  activeServers :: "string set"

text \<open>
  Modelled from the spec: the volume servers' side of the three calls is not among the
  sources. By the specification the copy puts the volume on the destination; its last
  argument is the cleanup-source flag (section 6), so that with the flag set a successful
  call leaves no replica on the source, and without it the volume is at both the source
  and the destination (section 4.5). A successful delete removes the replica of the one
  server it is sent to, and marking read-only moves nothing. The help text of the command
  (lines 36 and 37) has one replica changed and the rest dropped.
\<close>

fun rpcEffect :: "rpc \<Rightarrow> (VolumeId \<Rightarrow> string set) \<Rightarrow> (VolumeId \<Rightarrow> string set)" where
  "rpcEffect (MarkVolumeReadonly vid locations) r = r"
| "rpcEffect (LiveMoveVolume vid src dst diskType cleanupSource) r =
     r(vid := insert dst (if cleanupSource then r vid - {src} else r vid))"
| "rpcEffect (DeleteVolume vid server) r = r(vid := r vid - {server})"

text \<open>A call is recorded, and takes effect when it succeeds.\<close>

definition call :: "move_env \<Rightarrow> rpc \<Rightarrow> state \<Rightarrow> error option \<times> state" where
  "call env r st =
     (let st1 = st\<lparr>trace := trace st @ [Call r]\<rparr>
      in case rpcError env r of
           Some err \<Rightarrow> (Some err, st1)
         | None \<Rightarrow> (None, st1\<lparr>replicas := rpcEffect r (replicas st1)\<rparr>))"

text \<open>
  \<open>dataNode.DiskInfos[string(toDiskType)].VolumeCount++\<close>: the map holds pointers, so a
  missing key yields nil and the increment panics.
\<close>

definition incrementVolumeCount :: "string \<Rightarrow> DataNodeInfo \<Rightarrow> DataNodeInfo option" where
  "incrementVolumeCount diskType dn =
     (case map_of (dnDiskInfos dn) diskType of
        None \<Rightarrow> None
      | Some d \<Rightarrow>
          Some (dn\<lparr>dnDiskInfos :=
                  AList.update diskType (d\<lparr>diVolumeCount := diVolumeCount d + 1\<rparr>) (dnDiskInfos dn)\<rparr>))"

text \<open>The loop of lines 186 to 192.\<close>

fun removeRemainingReplicas ::
  "move_env \<Rightarrow> VolumeId \<Rightarrow> string \<Rightarrow> string \<Rightarrow> Location list \<Rightarrow> state \<Rightarrow> state" where
  "removeRemainingReplicas env vid dstId sourceVolumeServer [] st = st"
| "removeRemainingReplicas env vid dstId sourceVolumeServer (loc # locs) st =
     (if locUrl loc \<noteq> dstId \<and> locUrl loc \<noteq> sourceVolumeServer
      then (case call env (DeleteVolume vid (locUrl loc)) st of
              (Some err, st1) \<Rightarrow>
                removeRemainingReplicas env vid dstId sourceVolumeServer locs
                  (st1\<lparr>writer := writer st1 @ [FailedToDelete vid (locUrl loc) err]\<rparr>)
            | (None, st1) \<Rightarrow> removeRemainingReplicas env vid dstId sourceVolumeServer locs st1)
      else removeRemainingReplicas env vid dstId sourceVolumeServer locs st)"

text \<open>
  \<open>doMoveOneVolume\<close> returns its error, the destination with its data node as the
  function leaves it, and the state. Both error messages read \<open>locations[0]\<close>. Line 178
  passes \<open>true\<close> for the flag of \<open>LiveMoveVolume\<close>.
\<close>

definition doMoveOneVolume ::
  "move_env \<Rightarrow> VolumeId \<Rightarrow> string \<Rightarrow> Location list \<Rightarrow> string \<Rightarrow> location \<Rightarrow> state
     \<Rightarrow> fault + (error option \<times> location \<times> state)" where
  "doMoveOneVolume env vid toDiskType locations sourceVolumeServer dst st =
     (case call env (MarkVolumeReadonly vid locations) st of
        (Some err, st1) \<Rightarrow>
          (case locations of
             [] \<Rightarrow> Inl IndexOutOfRange
           | l # _ \<Rightarrow> Inr (Some (MarkReadonlyFailed vid (locUrl l) err), dst, st1))
      | (None, st1) \<Rightarrow>
          (case call env (LiveMoveVolume vid sourceVolumeServer (dnId (loc_dataNode dst))
                            (ReadableString env toDiskType) True) st1 of
             (Some err, st2) \<Rightarrow>
               (case locations of
                  [] \<Rightarrow> Inl IndexOutOfRange
                | l # _ \<Rightarrow>
                    Inr (Some (MoveVolumeFailed vid (locUrl l) (dnId (loc_dataNode dst)) err), dst, st2))
           | (None, st2) \<Rightarrow>
               (case incrementVolumeCount toDiskType (loc_dataNode dst) of
                  None \<Rightarrow> Inl NilDereference
                | Some dn' \<Rightarrow>
                    Inr (None, dst\<lparr>loc_dataNode := dn'\<rparr>,
                         removeRemainingReplicas env vid (dnId (loc_dataNode dst)) sourceVolumeServer
                           locations st2))))"

section \<open>Choosing the destination: doVolumeTierMove\<close>

fun isOneOf :: "string \<Rightarrow> Location list \<Rightarrow> bool" where
  "isOneOf server [] = False"
| "isOneOf server (loc # locations) = (if server = locUrl loc then True else isOneOf server locations)"

text \<open>The loop of lines 120 to 124, started with the empty string of line 119.\<close>

fun pickSource :: "string \<Rightarrow> Location list \<Rightarrow> string \<Rightarrow> string" where
  "pickSource dstId [] sourceVolumeServer = sourceVolumeServer"
| "pickSource dstId (loc # locations) sourceVolumeServer =
     pickSource dstId locations (if locUrl loc \<noteq> dstId then locUrl loc else sourceVolumeServer)"

text \<open>
  Lines 137 to 147. The \<open>sync.WaitGroup\<close> is a local variable of \<open>doVolumeTierMove\<close>, which
  waits on it at line 163 before it returns: when a later call comes to the gate, every
  goroutine started before has ended. With a server of the pair still in the set, the
  wait of line 141 would have nobody left to signal it.
\<close>

definition acquireServers :: "string \<Rightarrow> string \<Rightarrow> state \<Rightarrow> fault + state" where
  "acquireServers sourceVolumeServer dstId st =
     (if sourceVolumeServer \<in> activeServers st \<or> dstId \<in> activeServers st then Inl Blocked
      else Inr (st\<lparr>activeServers := insert dstId (insert sourceVolumeServer (activeServers st))\<rparr>))"

text \<open>
  The function literal of lines 150 to 158. Between its start and the \<open>wg.Wait()\<close> of line
  163 the caller only runs loop iterations whose condition \<open>!hasFoundTarget\<close> is false, so
  the literal runs here, as a whole, at the place of the \<open>go\<close> statement.
\<close>

definition moveTask ::
  "move_env \<Rightarrow> VolumeId \<Rightarrow> string \<Rightarrow> Location list \<Rightarrow> string \<Rightarrow> location \<Rightarrow> state
     \<Rightarrow> fault + (location \<times> state)" where
  "moveTask env vid toDiskType locations sourceVolumeServer dst st =
     (case doMoveOneVolume env vid toDiskType locations sourceVolumeServer dst
             (st\<lparr>trace := trace st @ [TaskStarted vid]\<rparr>) of
        Inl f \<Rightarrow> Inl f
      | Inr (err, dst', st1) \<Rightarrow>
          (let st2 = (case err of
                        Some e \<Rightarrow> st1\<lparr>writer := writer st1 @
                                     [MoveFailed vid sourceVolumeServer (dnId (loc_dataNode dst)) e]\<rparr>
                      | None \<Rightarrow> st1)
           in Inr (dst', st2\<lparr>activeServers := activeServers st2 - {sourceVolumeServer} - {dnId (loc_dataNode dst)},
                             trace := trace st2 @ [TaskFinished vid]\<rparr>)))"

definition keepLocation ::
  "location \<Rightarrow> fault + (bool \<times> location list \<times> state) \<Rightarrow> fault + (bool \<times> location list \<times> state)" where
  "keepLocation dst r =
     (case r of Inl f \<Rightarrow> Inl f | Inr (found, ls, st) \<Rightarrow> Inr (found, dst # ls, st))"

text \<open>
  The loop of lines 113 to 161 over the sorted locations. It returns \<open>hasFoundTarget\<close>,
  the locations with the data nodes as the loop leaves them, and the state.
\<close>

fun walkLocations ::
  "move_env \<Rightarrow> VolumeId \<Rightarrow> string \<Rightarrow> Location list \<Rightarrow> bool \<Rightarrow> bool \<Rightarrow> location list \<Rightarrow> state
     \<Rightarrow> fault + (bool \<times> location list \<times> state)" where
  "walkLocations env vid toDiskType locations applyChanges hasFoundTarget [] st =
     Inr (hasFoundTarget, [], st)"
| "walkLocations env vid toDiskType locations applyChanges hasFoundTarget (dst # rest) st =
     (if 0 < capacityByFreeVolumeCount env toDiskType (loc_dataNode dst) \<and> \<not> hasFoundTarget
      then
        (if isOneOf (dnId (loc_dataNode dst)) locations
         then keepLocation dst
                (walkLocations env vid toDiskType locations applyChanges hasFoundTarget rest st)
         else
           (let sourceVolumeServer = pickSource (dnId (loc_dataNode dst)) locations []
            in if sourceVolumeServer = []
               then keepLocation dst
                      (walkLocations env vid toDiskType locations applyChanges hasFoundTarget rest st)
               else
                 (let st1 = st\<lparr>writer := writer st @
                              [Moving vid sourceVolumeServer (dnId (loc_dataNode dst))
                                 (ReadableString env toDiskType)]\<rparr>
                  in if \<not> applyChanges
                     then (case incrementVolumeCount toDiskType (loc_dataNode dst) of
                             None \<Rightarrow> Inl NilDereference
                           | Some dn' \<Rightarrow> Inr (True, dst\<lparr>loc_dataNode := dn'\<rparr> # rest, st1))
                     else (case acquireServers sourceVolumeServer (dnId (loc_dataNode dst)) st1 of
                             Inl f \<Rightarrow> Inl f
                           | Inr st2 \<Rightarrow>
                               (case moveTask env vid toDiskType locations sourceVolumeServer dst st2 of
                                  Inl f \<Rightarrow> Inl f
                                | Inr (dst', st3) \<Rightarrow>
                                    keepLocation dst'
                                      (walkLocations env vid toDiskType locations applyChanges True rest st3))))))
      else keepLocation dst
             (walkLocations env vid toDiskType locations applyChanges hasFoundTarget rest st))"

text \<open>\<open>doVolumeTierMove\<close> returns its error, the locations and the state.\<close>

definition doVolumeTierMove ::
  "move_env \<Rightarrow> VolumeId \<Rightarrow> string \<Rightarrow> location list \<Rightarrow> bool \<Rightarrow> state
     \<Rightarrow> fault + (error option \<times> location list \<times> state)" where
  "doVolumeTierMove env vid toDiskType allLocations applyChanges st =
     (case GetLocations env vid of
        None \<Rightarrow> Inr (Some (VolumeNotFound vid), allLocations, st)
      | Some locations \<Rightarrow>
          (case walkLocations env vid toDiskType locations applyChanges False
                  (keepDataNodesSorted env toDiskType allLocations) st of
             Inl f \<Rightarrow> Inl f
           | Inr (hasFoundTarget, ls, st1) \<Rightarrow>
               Inr (None, ls,
                    if \<not> hasFoundTarget
                    then st1\<lparr>writer := writer st1 @
                           [CanNotFindDiskType (ReadableString env toDiskType) vid]\<rparr>
                    else st1)))"

section \<open>The command: Do\<close>

text \<open>
  The flags after \<open>tierCommand.Parse\<close>, and what \<open>Do\<close> gets from its collaborators: the
  answer of \<open>confirmIsLocked\<close>, the result of parsing the arguments, and the result of
  \<open>collectTopologyInfo\<close> (the snapshot and the volume size limit in MB).
\<close>

datatype parse_error = FlagError string

record 'f flags =
  flag_collectionPattern :: string
  flag_fullPercent :: 'f
  flag_quietFor :: "64 word"
  flag_fromDiskType :: string
  flag_toDiskType :: string
  flag_force :: bool

record 'f do_input =
  confirmIsLocked :: "error option"
  parsedFlags :: "parse_error + 'f flags"
  collectTopologyInfo :: "error + TopologyInfo \<times> 64 word"

text \<open>
  Modelled from the spec: \<open>collectVolumeReplicaLocations\<close> is not among the sources. Its
  second result, the only one \<open>Do\<close> keeps, holds the candidate destination nodes: one
  \<open>location\<close> for every data node of the snapshot, with its data center and rack.
\<close>

definition allLocationsOf :: "TopologyInfo \<Rightarrow> location list" where
  "allLocationsOf topo =
     concat (map (\<lambda>dc. concat (map (\<lambda>rack.
        map (\<lambda>dn. \<lparr> loc_dc = dcId dc, loc_rack = rackId rack, loc_dataNode = dn \<rparr>) (rackDataNodeInfos rack))
        (dcRackInfos dc))) (topoDataCenterInfos topo))"

text \<open>The loop of lines 83 to 87.\<close>

fun moveVolumes ::
  "move_env \<Rightarrow> string \<Rightarrow> bool \<Rightarrow> VolumeId list \<Rightarrow> location list \<Rightarrow> state
     \<Rightarrow> fault + (location list \<times> state)" where
  "moveVolumes env toDiskType applyChange [] allLocations st = Inr (allLocations, st)"
| "moveVolumes env toDiskType applyChange (vid # volumeIds) allLocations st =
     (case doVolumeTierMove env vid toDiskType allLocations applyChange st of
        Inl f \<Rightarrow> Inl f
      | Inr (err, allLocations', st1) \<Rightarrow>
          moveVolumes env toDiskType applyChange volumeIds allLocations'
            (case err of
               Some e \<Rightarrow> st1\<lparr>stdout := stdout st1 @ [TierMoveVolumeError vid e]\<rparr>
             | None \<Rightarrow> st1))"

text \<open>\<open>Do\<close> returns its error and the state.\<close>

definition Do ::
  "'f selector_env \<Rightarrow> move_env \<Rightarrow> 'f do_input \<Rightarrow> state \<Rightarrow> fault + (error option \<times> state)" where
  "Do senv env inp st0 =
     (let st = st0\<lparr>activeServers := {}\<rparr>
      in case confirmIsLocked inp of
           Some err \<Rightarrow> Inr (Some err, st)
         | None \<Rightarrow>
             (case parsedFlags inp of
                Inl err \<Rightarrow> Inr (None, st)
              | Inr fl \<Rightarrow>
                  (let fromTier = se_ToDiskType senv (flag_fromDiskType fl);
                       toTier = se_ToDiskType senv (flag_toDiskType fl)
                   in if fromTier = toTier then Inr (Some (SameTier fromTier toTier), st)
                      else
                        (case collectTopologyInfo inp of
                           Inl err \<Rightarrow> Inr (Some err, st)
                         | Inr (topologyInfo, volumeSizeLimitMb) \<Rightarrow>
                             (case collectVolumeIdsForTierChange senv topologyInfo volumeSizeLimitMb fromTier
                                     (flag_collectionPattern fl) (flag_fullPercent fl) (flag_quietFor fl) of
                                (volumeIds, Some err) \<Rightarrow>
                                  Inr (Some (PatternError err),
                                       st\<lparr>stdout := stdout st @
                                            [CollectingQuiet fromTier (quietSecondsOf (flag_quietFor fl))]\<rparr>)
                              | (volumeIds, None) \<Rightarrow>
                                  (case moveVolumes env toTier (flag_force fl) volumeIds (allLocationsOf topologyInfo)
                                          (st\<lparr>stdout := stdout st @
                                                [CollectingQuiet fromTier (quietSecondsOf (flag_quietFor fl)),
                                                 TierMoveVolumes volumeIds]\<rparr>) of
                                     Inl f \<Rightarrow> Inl f
                                   | Inr (allLocations, st1) \<Rightarrow> Inr (None, st1)))))))"

section \<open>Views of a run\<close>

text \<open>
  The replicas that the loop of lines 186 to 192 asks to delete, in its order: those that
  are neither on the destination nor on the source of the copy. The lines it writes for
  the deletions that fail.
\<close>

definition staleReplicas :: "string \<Rightarrow> string \<Rightarrow> Location list \<Rightarrow> string list" where
  "staleReplicas dstId sourceVolumeServer locations =
     filter (\<lambda>u. u \<noteq> dstId \<and> u \<noteq> sourceVolumeServer) (map locUrl locations)"

definition deleteFailures :: "move_env \<Rightarrow> VolumeId \<Rightarrow> string list \<Rightarrow> message list" where
  "deleteFailures env vid urls =
     concat (map (\<lambda>u. case rpcError env (DeleteVolume vid u) of
                         Some err \<Rightarrow> [FailedToDelete vid u err]
                       | None \<Rightarrow> []) urls)"

text \<open>
  The three tests a data node passes to become the destination (lines 114 to 127): free
  capacity for the target tier, no replica of the volume on it, and a source found among
  the locations.
\<close>

definition viableDestination :: "move_env \<Rightarrow> string \<Rightarrow> Location list \<Rightarrow> location \<Rightarrow> bool" where
  "viableDestination env toDiskType locations dst \<longleftrightarrow>
     0 < capacityByFreeVolumeCount env toDiskType (loc_dataNode dst)
     \<and> \<not> isOneOf (dnId (loc_dataNode dst)) locations
     \<and> pickSource (dnId (loc_dataNode dst)) locations [] \<noteq> []"


text \<open>The starts and the ends of the tasks in the trace of a state, without the calls.\<close>

fun isTaskEvent :: "event \<Rightarrow> bool" where
  "isTaskEvent (Call r) = False"
| "isTaskEvent (TaskStarted vid) = True"
| "isTaskEvent (TaskFinished vid) = True"

definition taskEvents :: "state \<Rightarrow> event list" where
  "taskEvents st = filter isTaskEvent (trace st)"


section \<open>A cluster to run the mover on\<close>

text \<open>
  Modelled from the spec: \<open>capacityByFreeVolumeCount\<close> and \<open>keepDataNodesSorted\<close> are not
  among the sources. By the specification the free capacity of a node for a tier is its
  maximum volume count minus its current volume count for that tier (none when the node
  has no disk of the tier), and the ranker sorts the nodes by it, descending, with ties in
  any order: here in the order they had.
\<close>

definition freeVolumeCount :: "string \<Rightarrow> DataNodeInfo \<Rightarrow> int" where
  "freeVolumeCount diskType dn =
     (case map_of (dnDiskInfos dn) diskType of
        None \<Rightarrow> 0
      | Some d \<Rightarrow> sint (diMaxVolumeCount d - diVolumeCount d))"

definition sortByFreeVolumeCount :: "string \<Rightarrow> location list \<Rightarrow> location list" where
  "sortByFreeVolumeCount diskType ls = sort_key (\<lambda>l. - freeVolumeCount diskType (loc_dataNode l)) ls"

text \<open>
  Five nodes with an \<open>hdd\<close> disk and an \<open>ssd\<close> disk of eight slots each. Volume 7 has its
  three replicas on \<open>n1\<close>, \<open>n2\<close> and \<open>n3\<close>, volume 8 its only replica on \<open>n2\<close>. On \<open>ssd\<close>,
  \<open>n1\<close> has eight free slots, \<open>n4\<close> six, the others none.
\<close>

definition tier_node :: "string \<Rightarrow> VolumeInformationMessage list \<Rightarrow> 64 word \<Rightarrow> DataNodeInfo" where
  "tier_node url vs ssdVolumes =
     \<lparr> dnId = url,
       dnDiskInfos = [(''hdd'', \<lparr> diVolumeCount = of_nat (length vs), diMaxVolumeCount = 8, diVolumeInfos = vs \<rparr>),
                      (''ssd'', \<lparr> diVolumeCount = ssdVolumes, diMaxVolumeCount = 8, diVolumeInfos = [] \<rparr>)] \<rparr>"

definition at_node :: "DataNodeInfo \<Rightarrow> location" where
  "at_node dn = \<lparr> loc_dc = ''dc1'', loc_rack = ''r1'', loc_dataNode = dn \<rparr>"

definition replica_on :: "string \<Rightarrow> Location" where
  "replica_on url = \<lparr> locUrl = url, locPublicUrl = url \<rparr>"

definition node1 :: DataNodeInfo where
  "node1 = tier_node ''n1'' [scenario_volume 7 30198988800 1699827200] 0"

definition node2 :: DataNodeInfo where
  "node2 = tier_node ''n2'' [scenario_volume 7 30198988800 1699827200, scenario_volume 8 30198988800 1699827200] 8"

definition node3 :: DataNodeInfo where
  "node3 = tier_node ''n3'' [scenario_volume 7 30198988800 1699827200] 8"

definition node4 :: DataNodeInfo where
  "node4 = tier_node ''n4'' [] 2"

definition node5 :: DataNodeInfo where
  "node5 = tier_node ''n5'' [] 8"

definition tier_cluster :: "DataNodeInfo list" where
  "tier_cluster = [node2, node4, node3, node1, node5]"

definition replicas_of_7 :: "Location list" where
  "replicas_of_7 = [replica_on ''n1'', replica_on ''n2'', replica_on ''n3'']"

definition tier_move_env :: "(rpc \<Rightarrow> error option) \<Rightarrow> move_env" where
  "tier_move_env outcome =
     \<lparr> GetLocations = (\<lambda>vid. if vid = 7 then Some replicas_of_7
                             else if vid = 8 then Some [replica_on ''n2''] else None),
       capacityByFreeVolumeCount = freeVolumeCount,
       keepDataNodesSorted = sortByFreeVolumeCount,
       ReadableString = (\<lambda>s. s),
       rpcError = outcome \<rparr>"

definition tier_state :: state where
  "tier_state =
     \<lparr> replicas = (\<lambda>vid. if vid = 7 then {''n1'', ''n2'', ''n3''} else if vid = 8 then {''n2''} else {}),
       trace = [], writer = [], stdout = [], activeServers = {} \<rparr>"

text \<open>Every call succeeds; or every call succeeds but the one given.\<close>

definition all_succeed :: "rpc \<Rightarrow> error option" where
  "all_succeed r = None"

definition only_fails :: "rpc \<Rightarrow> rpc \<Rightarrow> error option" where
  "only_fails bad r = (if r = bad then Some (External ''unavailable'') else None)"

text \<open>
  The input of \<open>Do\<close> on this cluster: the lock held, the flags
  \<open>-fromDiskType=hdd -toDiskType=ssd -quietFor=1h\<close> with or without \<open>-force\<close>, and the
  snapshot of the five nodes with a size limit of 30000 MB.
\<close>

definition tier_input :: "bool \<Rightarrow> rat do_input" where
  "tier_input applyChange =
     \<lparr> confirmIsLocked = None,
       parsedFlags = Inr \<lparr> flag_collectionPattern = '''', flag_fullPercent = 95,
                           flag_quietFor = 3600000000000, flag_fromDiskType = ''hdd'',
                           flag_toDiskType = ''ssd'', flag_force = applyChange \<rparr>,
       collectTopologyInfo = Inr (scenario_topology tier_cluster, 30000) \<rparr>"

section \<open>Properties of the candidate selector\<close>

lemmas scenario_defs = collectVolumeIdsForTierChange_def eachDataNode_def allDataNodes_def
  scenario_topology_def scenario_node_def scenario_volume_def scenario_env_def visitVolume_def
  isQuietAndOnTier_def isFullEnough_def sizeThreshold_def exact_ops_def globMatch_def
  quietSecondsOf_def

subsection \<open>The loops, flattened\<close>

lemma eachVolumeInfo_append:
  "eachVolumeInfo f (xs @ ys) m =
     (case eachVolumeInfo f xs m of (True, m') \<Rightarrow> (True, m') | (False, m') \<Rightarrow> eachVolumeInfo f ys m')"
  by (induction xs arbitrary: m) (auto split: visit.splits)

lemma eachDiskInfo_flat:
  "eachDiskInfo f ds m = eachVolumeInfo f (concat (map (\<lambda>kd. diVolumeInfos (snd kd)) ds)) m"
  by (induction ds arbitrary: m) (auto simp: eachVolumeInfo_append split: prod.splits bool.splits)

lemma eachVolumeInfo_set:
  "set (snd (eachVolumeInfo f vs m)) =
     set m \<union> volId ` {v \<in> set (takeWhile (\<lambda>v. f v \<noteq> Return) vs). f v = Mark}"
  by (induction vs arbitrary: m) (auto split: visit.splits)


lemma fold_nodes_set:
  "set (fold (\<lambda>dn m. snd (eachDiskInfo f (dnDiskInfos dn) m)) ns m) =
     set m \<union> volId ` {v. \<exists>dn \<in> set ns. v \<in> set (reachedVolumes f dn) \<and> f v = Mark}"
  by (induction ns arbitrary: m)
     (auto simp: eachDiskInfo_flat eachVolumeInfo_set reachedVolumes_def nodeVolumes_def)


lemma collect_set:
  "set (fst (collectVolumeIdsForTierChange env topo lmt tier pat pct qp)) =
     volId ` {v. \<exists>dn \<in> set (allDataNodes topo).
                 v \<in> set (reachedVolumes (visitVolume env lmt tier pat pct (quietSecondsOf qp)) dn)
               \<and> visitVolume env lmt tier pat pct (quietSecondsOf qp) v = Mark}"
  by (simp add: collectVolumeIdsForTierChange_def eachDataNode_def fold_nodes_set Let_def)


lemma visitVolume_Mark_iff:
  "visitVolume env lmt tier pat pct qs v = Mark \<longleftrightarrow>
     (pat \<noteq> [] \<longrightarrow> se_Match env pat (volCollection v) = Inr True)
     \<and> isQuietAndOnTier env tier qs v \<and> isFullEnough env lmt pct v"
  by (auto simp: visitVolume_def Let_def split: sum.splits)

lemma visitVolume_Return_iff:
  "visitVolume env lmt tier pat pct qs v = Return \<longleftrightarrow>
     pat \<noteq> [] \<and> (\<exists>e. se_Match env pat (volCollection v) = Inl e)"
  by (auto simp: visitVolume_def Let_def split: sum.splits)

lemma reached_subset: "set (reachedVolumes f dn) \<subseteq> set (nodeVolumes dn)"
  by (auto simp: reachedVolumes_def dest: set_takeWhileD)

lemma reached_all:
  "\<forall>v \<in> set (nodeVolumes dn). f v \<noteq> Return \<Longrightarrow> reachedVolumes f dn = nodeVolumes dn"
  by (simp add: reachedVolumes_def)

lemma in_allVolumes:
  "v \<in> set (allVolumes topo) \<longleftrightarrow> (\<exists>dn \<in> set (allDataNodes topo). v \<in> set (nodeVolumes dn))"
  by (auto simp: allVolumes_def)

subsection \<open>The quiet period in seconds\<close>



lemma sint_add_inrange:
  "sumInRange a b \<Longrightarrow> sint (a + b) = sint a + sint b"
  unfolding sumInRange_def
  by (simp add: sint_word_ariths signed_take_bit_int_eq_self)




subsection \<open>Every candidate meets the four criteria\<close>




subsection \<open>The boundary of the quiet period\<close>

text \<open>
  Claim C4, as stated, fails: a volume whose time since the last modification is exactly
  \<open>quietPeriod\<close> (one hour), on the source tier and full enough, is not selected.
\<close>

theorem exactly_quiet_not_selected:
  "(sint (se_nowUnixSeconds scenario_env) - sint (volModifiedAtSecond (scenario_volume 7 30198988800 1699996400))) * 1000000000
     = sint (3600000000000 :: 64 word)
   \<and> se_ToDiskType scenario_env (volDiskType (scenario_volume 7 30198988800 1699996400)) = ''hdd''
   \<and> isFullEnough scenario_env 30000 95 (scenario_volume 7 30198988800 1699996400)
   \<and> allVolumes exactly_quiet_scenario = [scenario_volume 7 30198988800 1699996400]
   \<and> 7 \<notin> set (fst (collectVolumeIdsForTierChange scenario_env exactly_quiet_scenario 30000 ''hdd'' '''' 95 3600000000000))"
  by (simp add: scenario_defs exactly_quiet_scenario_def allVolumes_def nodeVolumes_def)

lemma isQuiet_iff:
  assumes "sumInRange (volModifiedAtSecond v) qs"
  shows "isQuietAndOnTier env tier qs v \<longleftrightarrow>
           sint qs < sint (se_nowUnixSeconds env) - sint (volModifiedAtSecond v)
         \<and> se_ToDiskType env (volDiskType v) = tier"
  using assms by (auto simp: isQuietAndOnTier_def sint_add_inrange)

text \<open>
  Claim C4, amended. The test of line 218 is \<open>ModifiedAtSecond + quietSeconds < now\<close>,
  with \<open>quietSeconds\<close> the quiet period truncated to whole seconds: a volume is skipped
  on grounds of recency when \<open>now - ModifiedAtSecond \<le> quietSeconds\<close>. With no pattern, or
  one on which the matcher reports no error, and timestamps whose \<open>int64\<close> sum with
  \<open>quietSeconds\<close> does not overflow, a volume id is selected if and only if the snapshot
  holds a volume of that id that matches the pattern (when there is one), lies on the
  source tier, is full enough, and was last modified more than \<open>quietSeconds\<close> ago.
\<close>

theorem selected_iff_quiet_beyond_quietSeconds:
  assumes wf: "pat = [] \<or> (\<forall>v \<in> set (allVolumes topo). se_Match env pat (volCollection v) \<noteq> Inl ErrBadPattern)"
    and rng: "\<forall>v \<in> set (allVolumes topo). sumInRange (volModifiedAtSecond v) (quietSecondsOf qp)"
  shows "vid \<in> set (fst (collectVolumeIdsForTierChange env topo lmt tier pat pct qp)) \<longleftrightarrow>
         (\<exists>v \<in> set (allVolumes topo). volId v = vid
            \<and> (pat \<noteq> [] \<longrightarrow> se_Match env pat (volCollection v) = Inr True)
            \<and> se_ToDiskType env (volDiskType v) = tier
            \<and> sint (quietSecondsOf qp) < sint (se_nowUnixSeconds env) - sint (volModifiedAtSecond v)
            \<and> isFullEnough env lmt pct v)"
proof -
  let ?f = "visitVolume env lmt tier pat pct (quietSecondsOf qp)"
  have noret: "?f v \<noteq> Return" if "v \<in> set (allVolumes topo)" for v
    using wf that by (auto simp: visitVolume_Return_iff) (metis match_error.exhaust)
  have reach: "reachedVolumes ?f dn = nodeVolumes dn" if "dn \<in> set (allDataNodes topo)" for dn
    using that noret by (intro reached_all) (auto simp: in_allVolumes)
  have "vid \<in> set (fst (collectVolumeIdsForTierChange env topo lmt tier pat pct qp)) \<longleftrightarrow>
        (\<exists>v \<in> set (allVolumes topo). volId v = vid \<and> ?f v = Mark)"
    unfolding collect_set using reach by (auto simp: allVolumes_def)
  also have "\<dots> \<longleftrightarrow> (\<exists>v \<in> set (allVolumes topo). volId v = vid
            \<and> (pat \<noteq> [] \<longrightarrow> se_Match env pat (volCollection v) = Inr True)
            \<and> se_ToDiskType env (volDiskType v) = tier
            \<and> sint (quietSecondsOf qp) < sint (se_nowUnixSeconds env) - sint (volModifiedAtSecond v)
            \<and> isFullEnough env lmt pct v)"
    using rng by (auto simp: visitVolume_Mark_iff isQuiet_iff)
  finally show ?thesis .
qed

text \<open>One second beyond the hour, volume 7 is selected.\<close>

theorem selected_iff_quiet_beyond_quietSeconds_witness:
  "se_Match scenario_env '''' ''photos'' \<noteq> Inl ErrBadPattern
   \<and> sumInRange 1699996399 (quietSecondsOf 3600000000000)
   \<and> allVolumes just_quiet_scenario = [scenario_volume 7 30198988800 1699996399]
   \<and> sint (quietSecondsOf 3600000000000) = 3600
   \<and> sint (se_nowUnixSeconds scenario_env) - sint (volModifiedAtSecond (scenario_volume 7 30198988800 1699996399)) = 3601
   \<and> 7 \<in> set (fst (collectVolumeIdsForTierChange scenario_env just_quiet_scenario 30000 ''hdd'' '''' 95 3600000000000))"
proof -
  have vs: "allVolumes just_quiet_scenario = [scenario_volume 7 30198988800 1699996399]"
    by (simp add: just_quiet_scenario_def allVolumes_def nodeVolumes_def allDataNodes_def
        scenario_topology_def scenario_node_def)
  have h1: "'''' = [] \<or> (\<forall>v \<in> set (allVolumes just_quiet_scenario). se_Match scenario_env '''' (volCollection v) \<noteq> Inl ErrBadPattern)"
    by simp
  have h2: "\<forall>v \<in> set (allVolumes just_quiet_scenario). sumInRange (volModifiedAtSecond v) (quietSecondsOf 3600000000000)"
    by (simp add: vs sumInRange_def scenario_volume_def quietSecondsOf_def)
  have "7 \<in> set (fst (collectVolumeIdsForTierChange scenario_env just_quiet_scenario 30000 ''hdd'' '''' 95 3600000000000))"
    unfolding selected_iff_quiet_beyond_quietSeconds [OF h1 h2]
    by (simp add: vs scenario_volume_def scenario_env_def quietSecondsOf_def isFullEnough_def
        sizeThreshold_def exact_ops_def)
  then show ?thesis
    by (simp add: vs scenario_env_def globMatch_def sumInRange_def quietSecondsOf_def scenario_volume_def)
qed

subsection \<open>A malformed pattern\<close>

lemma stops_at_Return:
  assumes "f v = Return"
  shows "snd (eachVolumeInfo f (pre @ v # post) m) = snd (eachVolumeInfo f pre m)"
  using assms by (simp add: eachVolumeInfo_append split: prod.splits bool.splits)

lemma reached_before_Return:
  assumes "nodeVolumes dn = pre @ v # post" and "f v = Return"
  shows "set (reachedVolumes f dn) \<subseteq> set pre"
  using assms by (auto simp: reachedVolumes_def takeWhile_append dest: set_takeWhileD split: if_splits)

text \<open>
  Claim C10. When the matcher reports an error on the collection of a volume \<open>v\<close> of a
  data node, the selector returns no error; the callback of that node ends there, so that
  the node contributes what the volumes before \<open>v\<close> contribute and nothing else; and every
  candidate of the result comes from a volume visited before \<open>v\<close> on that node or from
  another node: the volumes that follow \<open>v\<close> on the node are left out without any report.
\<close>

theorem malformed_pattern_stops_node_silently:
  assumes pat: "pat \<noteq> []" and dn: "dn \<in> set (allDataNodes topo)"
    and split: "nodeVolumes dn = pre @ v # post"
    and bad: "se_Match env pat (volCollection v) = Inl e"
  shows "snd (collectVolumeIdsForTierChange env topo lmt tier pat pct qp) = None
       \<and> (\<forall>m. snd (eachDiskInfo (visitVolume env lmt tier pat pct (quietSecondsOf qp)) (dnDiskInfos dn) m)
              = snd (eachVolumeInfo (visitVolume env lmt tier pat pct (quietSecondsOf qp)) pre m))
       \<and> (\<forall>x \<in> set (fst (collectVolumeIdsForTierChange env topo lmt tier pat pct qp)).
             \<exists>u. volId u = x \<and> visitVolume env lmt tier pat pct (quietSecondsOf qp) u = Mark
               \<and> (u \<in> set pre \<or> (\<exists>dn' \<in> set (allDataNodes topo). dn' \<noteq> dn \<and> u \<in> set (nodeVolumes dn'))))"
proof (intro conjI allI ballI)
  let ?f = "visitVolume env lmt tier pat pct (quietSecondsOf qp)"
  have ret: "?f v = Return" using pat bad by (simp add: visitVolume_Return_iff)
  show "snd (collectVolumeIdsForTierChange env topo lmt tier pat pct qp) = None"
    by (simp add: collectVolumeIdsForTierChange_def Let_def)
  show "snd (eachDiskInfo ?f (dnDiskInfos dn) m) = snd (eachVolumeInfo ?f pre m)" for m
    using split ret by (simp add: eachDiskInfo_flat nodeVolumes_def [symmetric] stops_at_Return)
  fix x assume "x \<in> set (fst (collectVolumeIdsForTierChange env topo lmt tier pat pct qp))"
  then obtain u dn' where dn': "dn' \<in> set (allDataNodes topo)"
    and u: "u \<in> set (reachedVolumes ?f dn')" and m: "?f u = Mark" and x: "volId u = x"
    unfolding collect_set by auto
  show "\<exists>u. volId u = x \<and> ?f u = Mark
          \<and> (u \<in> set pre \<or> (\<exists>dn' \<in> set (allDataNodes topo). dn' \<noteq> dn \<and> u \<in> set (nodeVolumes dn')))"
  proof (cases "dn' = dn")
    case True
    with u reached_before_Return [of dn pre v post ?f, OF split ret] have "u \<in> set pre" by auto
    with x m show ?thesis by blast
  next
    case False
    with u dn' reached_subset [of ?f dn'] x m show ?thesis by blast
  qed
qed

text \<open>
  On a node with the volumes 7 and 8 the pattern \<open>[photo\<close> yields no candidate and no
  error; without a pattern both volumes are candidates.
\<close>

theorem malformed_pattern_stops_node_silently_witness:
  "''[photo'' \<noteq> []
   \<and> two_volume_node \<in> set (allDataNodes (scenario_topology [two_volume_node]))
   \<and> nodeVolumes two_volume_node = [] @ scenario_volume 7 30198988800 1699827200 # [scenario_volume 8 30198988800 1699827200]
   \<and> se_Match scenario_env ''[photo'' (volCollection (scenario_volume 7 30198988800 1699827200)) = Inl ErrBadPattern
   \<and> collectVolumeIdsForTierChange scenario_env (scenario_topology [two_volume_node]) 30000 ''hdd'' ''[photo'' 95 3600000000000 = ([], None)
   \<and> fst (collectVolumeIdsForTierChange scenario_env (scenario_topology [two_volume_node]) 30000 ''hdd'' '''' 95 3600000000000) = [8, 7]"
proof -
  have h1: "''[photo'' \<noteq> []" by simp
  have ns: "allDataNodes (scenario_topology [two_volume_node]) = [two_volume_node]"
    by (simp add: allDataNodes_def scenario_topology_def)
  have h2: "two_volume_node \<in> set (allDataNodes (scenario_topology [two_volume_node]))"
    by (simp add: ns)
  have h3: "nodeVolumes two_volume_node = [] @ scenario_volume 7 30198988800 1699827200 # [scenario_volume 8 30198988800 1699827200]"
    by (simp add: nodeVolumes_def two_volume_node_def scenario_node_def)
  have h4: "se_Match scenario_env ''[photo'' (volCollection (scenario_volume 7 30198988800 1699827200)) = Inl ErrBadPattern"
    by (simp add: scenario_env_def globMatch_def)
  from malformed_pattern_stops_node_silently [OF h1 h2 h3 h4, of 30000 "''hdd''" 95 3600000000000]
  have "snd (collectVolumeIdsForTierChange scenario_env (scenario_topology [two_volume_node]) 30000 ''hdd'' ''[photo'' 95 3600000000000) = None"
    and "set (fst (collectVolumeIdsForTierChange scenario_env (scenario_topology [two_volume_node]) 30000 ''hdd'' ''[photo'' 95 3600000000000)) = {}"
    by (auto simp: ns)
  then have "collectVolumeIdsForTierChange scenario_env (scenario_topology [two_volume_node]) 30000 ''hdd'' ''[photo'' 95 3600000000000 = ([], None)"
    by (simp add: prod_eq_iff)
  moreover have "fst (collectVolumeIdsForTierChange scenario_env (scenario_topology [two_volume_node]) 30000 ''hdd'' '''' 95 3600000000000) = [8, 7]"
    by (simp add: scenario_defs two_volume_node_def)
  ultimately show ?thesis using h2 h3 h4 by simp
qed

section \<open>Properties of the mover\<close>

subsection \<open>One volume\<close>

lemma call_simps:
  "rpcError env r = Some e \<Longrightarrow> call env r st = (Some e, st\<lparr>trace := trace st @ [Call r]\<rparr>)"
  "rpcError env r = None \<Longrightarrow>
     call env r st = (None, st\<lparr>trace := trace st @ [Call r], replicas := rpcEffect r (replicas st)\<rparr>)"
  by (simp_all add: call_def Let_def)

lemma remove_trace:
  "trace (removeRemainingReplicas env vid d s locs st) =
     trace st @ map (\<lambda>u. Call (DeleteVolume vid u)) (staleReplicas d s locs)"
  by (induction locs arbitrary: st) (auto simp: staleReplicas_def call_def Let_def split: option.splits)

lemma remove_writer:
  "writer (removeRemainingReplicas env vid d s locs st) =
     writer st @ deleteFailures env vid (staleReplicas d s locs)"
  by (induction locs arbitrary: st)
     (auto simp: staleReplicas_def deleteFailures_def call_def Let_def split: option.splits)

lemma remove_replicas:
  "replicas (removeRemainingReplicas env vid d s locs st) vid =
     replicas st vid - {u \<in> set (staleReplicas d s locs). rpcError env (DeleteVolume vid u) = None}"
  by (induction locs arbitrary: st)
     (auto simp: staleReplicas_def call_def Let_def split: option.splits)


lemma doMove_success:
  assumes "rpcError env (MarkVolumeReadonly vid locations) = None"
    and "rpcError env (LiveMoveVolume vid src (dnId (loc_dataNode dst)) (ReadableString env t) True) = None"
    and "incrementVolumeCount t (loc_dataNode dst) = Some dn'"
  shows "doMoveOneVolume env vid t locations src dst st =
           Inr (None, dst\<lparr>loc_dataNode := dn'\<rparr>,
                removeRemainingReplicas env vid (dnId (loc_dataNode dst)) src locations
                  (st\<lparr>trace := trace st @ [Call (MarkVolumeReadonly vid locations),
                          Call (LiveMoveVolume vid src (dnId (loc_dataNode dst)) (ReadableString env t) True)],
                       replicas := (replicas st)(vid := insert (dnId (loc_dataNode dst)) (replicas st vid - {src}))\<rparr>))"
  using assms by (simp add: doMoveOneVolume_def call_simps)


text \<open>
  Claim C9. After the replicas are marked read-only and the copy has succeeded (and the
  counter of the destination is incremented), \<open>doMoveOneVolume\<close> returns nil whatever the
  deletions do: it asks every stale replica to be deleted, in the order of the locations,
  also after a deletion has failed; it writes one line for each deletion that fails; it
  sends no call that would undo the copy, and the destination still holds the volume.
\<close>

theorem cleanup_failure_is_logged_only:
  assumes mark: "rpcError env (MarkVolumeReadonly vid locations) = None"
    and copy: "rpcError env (LiveMoveVolume vid src (dnId (loc_dataNode dst)) (ReadableString env t) True) = None"
    and disk: "incrementVolumeCount t (loc_dataNode dst) = Some dn'"
  shows "\<exists>st'. doMoveOneVolume env vid t locations src dst st = Inr (None, dst\<lparr>loc_dataNode := dn'\<rparr>, st')
           \<and> trace st' = trace st
                @ [Call (MarkVolumeReadonly vid locations),
                   Call (LiveMoveVolume vid src (dnId (loc_dataNode dst)) (ReadableString env t) True)]
                @ map (\<lambda>u. Call (DeleteVolume vid u)) (staleReplicas (dnId (loc_dataNode dst)) src locations)
           \<and> writer st' = writer st
                @ deleteFailures env vid (staleReplicas (dnId (loc_dataNode dst)) src locations)
           \<and> dnId (loc_dataNode dst) \<in> replicas st' vid"
  unfolding doMove_success [OF mark copy disk]
  by (auto simp: remove_trace remove_writer remove_replicas staleReplicas_def)



subsection \<open>The walk over the destinations\<close>

lemma isOneOf_iff: "isOneOf s locs \<longleftrightarrow> s \<in> locUrl ` set locs"
  by (induction locs) auto

lemma pickSource_mem:
  "pickSource d locs s0 = s0 \<or> (pickSource d locs s0 \<in> locUrl ` set locs \<and> pickSource d locs s0 \<noteq> d)"
  by (induction locs arbitrary: s0) (auto, metis+)

lemma viable_source:
  assumes "viableDestination env t locs dst"
  shows "pickSource (dnId (loc_dataNode dst)) locs [] \<in> locUrl ` set locs"
    and "pickSource (dnId (loc_dataNode dst)) locs [] \<noteq> dnId (loc_dataNode dst)"
    and "dnId (loc_dataNode dst) \<notin> locUrl ` set locs"
    and "locs \<noteq> []"
  using assms pickSource_mem [of "dnId (loc_dataNode dst)" locs "[]"]
  by (auto simp: viableDestination_def isOneOf_iff)

lemma walk_found:
  "walkLocations env vid t locs ap True ls st = Inr (True, ls, st)"
  by (induction ls) (simp_all add: keepLocation_def)

lemma walk_not_viable:
  "\<not> viableDestination env t locs dst \<Longrightarrow>
     walkLocations env vid t locs ap False (dst # rest) st =
       keepLocation dst (walkLocations env vid t locs ap False rest st)"
  by (auto simp: viableDestination_def Let_def)

lemma walk_skip:
  "\<forall>d \<in> set pre. \<not> viableDestination env t locs d \<Longrightarrow>
     walkLocations env vid t locs ap False (pre @ rest) st =
       (case walkLocations env vid t locs ap False rest st of
          Inl f \<Rightarrow> Inl f
        | Inr (found, ls, st') \<Rightarrow> Inr (found, pre @ ls, st'))"
proof (induction pre)
  case Nil
  then show ?case by (simp split: sum.splits)
next
  case (Cons d pre)
  then show ?case
    by (simp add: walk_not_viable keepLocation_def del: walkLocations.simps
          split: sum.splits prod.splits)
qed

lemma walk_none:
  "\<forall>d \<in> set ls. \<not> viableDestination env t locs d \<Longrightarrow>
     walkLocations env vid t locs ap False ls st = Inr (False, ls, st)"
  using walk_skip [of ls env t locs vid ap "[]" st] by simp

lemma walk_viable:
  assumes "viableDestination env t locs dst"
  shows "walkLocations env vid t locs ap False (dst # rest) st =
     (let src = pickSource (dnId (loc_dataNode dst)) locs [];
          st1 = st\<lparr>writer := writer st @ [Moving vid src (dnId (loc_dataNode dst)) (ReadableString env t)]\<rparr>
      in if \<not> ap
         then (case incrementVolumeCount t (loc_dataNode dst) of
                 None \<Rightarrow> Inl NilDereference
               | Some dn' \<Rightarrow> Inr (True, dst\<lparr>loc_dataNode := dn'\<rparr> # rest, st1))
         else (case acquireServers src (dnId (loc_dataNode dst)) st1 of
                 Inl f \<Rightarrow> Inl f
               | Inr st2 \<Rightarrow>
                   (case moveTask env vid t locs src dst st2 of
                      Inl f \<Rightarrow> Inl f
                    | Inr (dst', st3) \<Rightarrow> Inr (True, dst' # rest, st3))))"
  using assms
  by (auto simp: viableDestination_def Let_def walk_found keepLocation_def split: sum.splits option.splits)

lemma walk_first_viable:
  assumes "\<forall>d \<in> set pre. \<not> viableDestination env t locs d" and "viableDestination env t locs dst"
  shows "walkLocations env vid t locs ap False (pre @ dst # post) st =
     (let src = pickSource (dnId (loc_dataNode dst)) locs [];
          st1 = st\<lparr>writer := writer st @ [Moving vid src (dnId (loc_dataNode dst)) (ReadableString env t)]\<rparr>
      in if \<not> ap
         then (case incrementVolumeCount t (loc_dataNode dst) of
                 None \<Rightarrow> Inl NilDereference
               | Some dn' \<Rightarrow> Inr (True, pre @ dst\<lparr>loc_dataNode := dn'\<rparr> # post, st1))
         else (case acquireServers src (dnId (loc_dataNode dst)) st1 of
                 Inl f \<Rightarrow> Inl f
               | Inr st2 \<Rightarrow>
                   (case moveTask env vid t locs src dst st2 of
                      Inl f \<Rightarrow> Inl f
                    | Inr (dst', st3) \<Rightarrow> Inr (True, pre @ dst' # post, st3))))"
  by (simp add: walk_skip [OF assms(1)] walk_viable [OF assms(2)] Let_def
        del: walkLocations.simps split: sum.splits option.splits)

text \<open>
  Claim C7. \<open>doVolumeTierMove\<close> walks the data nodes in the order \<open>keepDataNodesSorted\<close>
  puts them in for the target tier. When no node is viable (each one lacks free capacity,
  hosts a replica of the volume, or leaves no source) it writes the line
  \<open>can not find disk type\<close> and returns nil, with the nodes and the cluster as they were.
  Otherwise the nodes before the first viable one are passed over, that node is the
  destination, and the source is a location of the volume other than the destination: in
  a dry run the counter of the destination is incremented, else the move task runs for
  this source and this destination; the nodes after it are left alone.
\<close>

theorem first_viable_destination_is_chosen:
  assumes loc: "GetLocations env vid = Some locations"
  shows "((\<forall>d \<in> set (keepDataNodesSorted env t ls). \<not> viableDestination env t locations d) \<longrightarrow>
            doVolumeTierMove env vid t ls ap st =
              Inr (None, keepDataNodesSorted env t ls,
                   st\<lparr>writer := writer st @ [CanNotFindDiskType (ReadableString env t) vid]\<rparr>))
       \<and> (keepDataNodesSorted env t ls = pre @ dst # post
            \<and> (\<forall>d \<in> set pre. \<not> viableDestination env t locations d)
            \<and> viableDestination env t locations dst \<longrightarrow>
            pickSource (dnId (loc_dataNode dst)) locations [] \<in> locUrl ` set locations
          \<and> pickSource (dnId (loc_dataNode dst)) locations [] \<noteq> dnId (loc_dataNode dst)
          \<and> dnId (loc_dataNode dst) \<notin> locUrl ` set locations
          \<and> doVolumeTierMove env vid t ls ap st =
             (let src = pickSource (dnId (loc_dataNode dst)) locations [];
                  st1 = st\<lparr>writer := writer st @ [Moving vid src (dnId (loc_dataNode dst)) (ReadableString env t)]\<rparr>
              in if \<not> ap
                 then (case incrementVolumeCount t (loc_dataNode dst) of
                         None \<Rightarrow> Inl NilDereference
                       | Some dn' \<Rightarrow> Inr (None, pre @ dst\<lparr>loc_dataNode := dn'\<rparr> # post, st1))
                 else (case acquireServers src (dnId (loc_dataNode dst)) st1 of
                         Inl f \<Rightarrow> Inl f
                       | Inr st2 \<Rightarrow>
                           (case moveTask env vid t locations src dst st2 of
                              Inl f \<Rightarrow> Inl f
                            | Inr (dst', st3) \<Rightarrow> Inr (None, pre @ dst' # post, st3)))))"
proof (intro conjI impI)
  assume "\<forall>d \<in> set (keepDataNodesSorted env t ls). \<not> viableDestination env t locations d"
  then show "doVolumeTierMove env vid t ls ap st =
              Inr (None, keepDataNodesSorted env t ls,
                   st\<lparr>writer := writer st @ [CanNotFindDiskType (ReadableString env t) vid]\<rparr>)"
    by (simp add: doVolumeTierMove_def loc walk_none del: walkLocations.simps)
next
  assume a: "keepDataNodesSorted env t ls = pre @ dst # post
            \<and> (\<forall>d \<in> set pre. \<not> viableDestination env t locations d)
            \<and> viableDestination env t locations dst"
  then have v: "viableDestination env t locations dst" by simp
  from viable_source [OF v]
  show "pickSource (dnId (loc_dataNode dst)) locations [] \<in> locUrl ` set locations"
    and "pickSource (dnId (loc_dataNode dst)) locations [] \<noteq> dnId (loc_dataNode dst)"
    and "dnId (loc_dataNode dst) \<notin> locUrl ` set locations" by simp_all
  from a have w: "walkLocations env vid t locations ap False (keepDataNodesSorted env t ls) st =
     (let src = pickSource (dnId (loc_dataNode dst)) locations [];
          st1 = st\<lparr>writer := writer st @ [Moving vid src (dnId (loc_dataNode dst)) (ReadableString env t)]\<rparr>
      in if \<not> ap
         then (case incrementVolumeCount t (loc_dataNode dst) of
                 None \<Rightarrow> Inl NilDereference
               | Some dn' \<Rightarrow> Inr (True, pre @ dst\<lparr>loc_dataNode := dn'\<rparr> # post, st1))
         else (case acquireServers src (dnId (loc_dataNode dst)) st1 of
                 Inl f \<Rightarrow> Inl f
               | Inr st2 \<Rightarrow>
                   (case moveTask env vid t locations src dst st2 of
                      Inl f \<Rightarrow> Inl f
                    | Inr (dst', st3) \<Rightarrow> Inr (True, pre @ dst' # post, st3))))"
    using walk_first_viable [of pre env t locations dst vid ap post st] by simp
  show "doVolumeTierMove env vid t ls ap st =
             (let src = pickSource (dnId (loc_dataNode dst)) locations [];
                  st1 = st\<lparr>writer := writer st @ [Moving vid src (dnId (loc_dataNode dst)) (ReadableString env t)]\<rparr>
              in if \<not> ap
                 then (case incrementVolumeCount t (loc_dataNode dst) of
                         None \<Rightarrow> Inl NilDereference
                       | Some dn' \<Rightarrow> Inr (None, pre @ dst\<lparr>loc_dataNode := dn'\<rparr> # post, st1))
                 else (case acquireServers src (dnId (loc_dataNode dst)) st1 of
                         Inl f \<Rightarrow> Inl f
                       | Inr st2 \<Rightarrow>
                           (case moveTask env vid t locations src dst st2 of
                              Inl f \<Rightarrow> Inl f
                            | Inr (dst', st3) \<Rightarrow> Inr (None, pre @ dst' # post, st3))))"
    by (simp add: doVolumeTierMove_def loc w Let_def del: walkLocations.simps
          split: sum.splits option.splits)
qed

lemma increment_defined:
  "map_of (dnDiskInfos dn) t = Some d \<Longrightarrow>
     incrementVolumeCount t dn =
       Some (dn\<lparr>dnDiskInfos := AList.update t (d\<lparr>diVolumeCount := diVolumeCount d + 1\<rparr>) (dnDiskInfos dn)\<rparr>)"
  by (simp add: incrementVolumeCount_def)

text \<open>
  Claim C5. With \<open>applyChanges\<close> false, \<open>doVolumeTierMove\<close> returns, issues no call to a
  volume server and leaves the replicas of every volume where they are. When the volume
  has a viable destination, the locations it hands back are the sorted ones with one
  change: at the first viable node, the \<open>VolumeCount\<close> of the disk of the target type is
  one higher; every other field of every node is as before. A capacity function that
  gives a positive value only to a node that has a disk of the tier is assumed, as the
  increment dereferences that disk.
\<close>

theorem dry_run_changes_one_counter:
  assumes cap: "\<forall>dn. 0 < capacityByFreeVolumeCount env t dn \<longrightarrow> map_of (dnDiskInfos dn) t \<noteq> None"
  shows "\<exists>err ls' st'. doVolumeTierMove env vid t ls False st = Inr (err, ls', st')
       \<and> trace st' = trace st \<and> replicas st' = replicas st
       \<and> activeServers st' = activeServers st \<and> stdout st' = stdout st
       \<and> (\<forall>locations. GetLocations env vid = Some locations
              \<and> (\<exists>d \<in> set (keepDataNodesSorted env t ls). viableDestination env t locations d) \<longrightarrow>
            (\<exists>i d. i < length (keepDataNodesSorted env t ls)
               \<and> viableDestination env t locations (keepDataNodesSorted env t ls ! i)
               \<and> (\<forall>j < i. \<not> viableDestination env t locations (keepDataNodesSorted env t ls ! j))
               \<and> map_of (dnDiskInfos (loc_dataNode (keepDataNodesSorted env t ls ! i))) t = Some d
               \<and> ls' = (keepDataNodesSorted env t ls)
                   [i := (keepDataNodesSorted env t ls ! i)
                      \<lparr>loc_dataNode := (loc_dataNode (keepDataNodesSorted env t ls ! i))
                         \<lparr>dnDiskInfos := AList.update t (d\<lparr>diVolumeCount := diVolumeCount d + 1\<rparr>)
                            (dnDiskInfos (loc_dataNode (keepDataNodesSorted env t ls ! i)))\<rparr>\<rparr>]))"
proof (cases "GetLocations env vid")
  case None
  then show ?thesis by (simp add: doVolumeTierMove_def)
next
  case (Some locations)
  let ?s = "keepDataNodesSorted env t ls"
  show ?thesis
  proof (cases "\<exists>d \<in> set ?s. viableDestination env t locations d")
    case False
    then show ?thesis
      by (simp add: doVolumeTierMove_def Some walk_none del: walkLocations.simps)
  next
    case True
    then obtain pre dst post where sp: "?s = pre @ dst # post"
      and v: "viableDestination env t locations dst"
      and np: "\<forall>d \<in> set pre. \<not> viableDestination env t locations d"
      using split_list_first_prop [of ?s "viableDestination env t locations"] by blast
    from v cap obtain d where d: "map_of (dnDiskInfos (loc_dataNode dst)) t = Some d"
      by (auto simp: viableDestination_def)
    let ?dn' = "(loc_dataNode dst)\<lparr>dnDiskInfos := AList.update t (d\<lparr>diVolumeCount := diVolumeCount d + 1\<rparr>)
                            (dnDiskInfos (loc_dataNode dst))\<rparr>"
    let ?st1 = "st\<lparr>writer := writer st @ [Moving vid (pickSource (dnId (loc_dataNode dst)) locations [])
                         (dnId (loc_dataNode dst)) (ReadableString env t)]\<rparr>"
    have run: "doVolumeTierMove env vid t ls False st = Inr (None, pre @ dst\<lparr>loc_dataNode := ?dn'\<rparr> # post, ?st1)"
      by (simp add: doVolumeTierMove_def Some sp walk_first_viable [OF np v] Let_def
            increment_defined [OF d] del: walkLocations.simps)
    have at: "?s ! length pre = dst" by (simp add: sp)
    have upd: "?s[length pre := dst\<lparr>loc_dataNode := ?dn'\<rparr>] = pre @ dst\<lparr>loc_dataNode := ?dn'\<rparr> # post"
      by (simp add: sp)
    have before: "\<forall>j < length pre. \<not> viableDestination env t locations (?s ! j)"
      using np by (simp add: sp nth_append)
    have len: "length pre < length ?s" by (simp add: sp)
    show ?thesis
      unfolding run
      apply (intro exI conjI)
           apply (rule refl)
          apply simp
         apply simp
        apply simp
       apply simp
      apply (intro allI impI)
      apply (rule exI [of _ "length pre"])
      apply (rule exI [of _ d])
      using Some v d before len at upd apply simp
      done
  qed
qed


subsection \<open>The mover on the cluster\<close>

lemmas cluster_defs = tier_cluster_def node1_def node2_def node3_def node4_def node5_def
  replicas_of_7_def tier_node_def at_node_def replica_on_def tier_move_env_def tier_state_def
  all_succeed_def only_fails_def freeVolumeCount_def sortByFreeVolumeCount_def scenario_volume_def

lemmas mover_defs = doVolumeTierMove_def keepLocation_def incrementVolumeCount_def
  acquireServers_def moveTask_def doMoveOneVolume_def call_def Let_def

lemma sorted_cluster:
  "keepDataNodesSorted (tier_move_env outcome) ''ssd'' (map at_node tier_cluster) =
     [at_node node1] @ at_node node4 # [at_node node2, at_node node3, at_node node5]"
  by (simp add: cluster_defs)

lemma node1_not_viable: "\<not> viableDestination (tier_move_env outcome) ''ssd'' replicas_of_7 (at_node node1)"
  by (simp add: viableDestination_def cluster_defs)

lemma node4_viable: "viableDestination (tier_move_env outcome) ''ssd'' replicas_of_7 (at_node node4)"
  by (simp add: viableDestination_def cluster_defs)

lemma source_for_node4: "pickSource (dnId (loc_dataNode (at_node node4))) replicas_of_7 [] = ''n3''"
  by (simp add: cluster_defs)

lemma locations_of_7: "GetLocations (tier_move_env outcome) 7 = Some replicas_of_7"
  by (simp add: tier_move_env_def)

text \<open>
  On the cluster: \<open>n1\<close> ranks first with eight free slots but holds a replica of volume
  7 and is passed over; \<open>n4\<close> is the destination, \<open>n3\<close> the source. For a tier that no
  node has a disk of, the line of line 166 is written and nothing else happens.
\<close>

theorem first_viable_destination_is_chosen_witness:
  "GetLocations (tier_move_env all_succeed) 7 = Some replicas_of_7
   \<and> keepDataNodesSorted (tier_move_env all_succeed) ''ssd'' (map at_node tier_cluster) =
       [at_node node1] @ at_node node4 # [at_node node2, at_node node3, at_node node5]
   \<and> map (\<lambda>l. capacityByFreeVolumeCount (tier_move_env all_succeed) ''ssd'' (loc_dataNode l))
         (keepDataNodesSorted (tier_move_env all_succeed) ''ssd'' (map at_node tier_cluster)) = [8, 6, 0, 0, 0]
   \<and> isOneOf (dnId node1) replicas_of_7
   \<and> \<not> viableDestination (tier_move_env all_succeed) ''ssd'' replicas_of_7 (at_node node1)
   \<and> viableDestination (tier_move_env all_succeed) ''ssd'' replicas_of_7 (at_node node4)
   \<and> doVolumeTierMove (tier_move_env all_succeed) 7 ''ssd'' (map at_node tier_cluster) False tier_state =
       Inr (None, [at_node node1, at_node (tier_node ''n4'' [] 3), at_node node2, at_node node3, at_node node5],
            tier_state\<lparr>writer := [Moving 7 ''n3'' ''n4'' ''ssd'']\<rparr>)
   \<and> doVolumeTierMove (tier_move_env all_succeed) 7 ''nvme'' (map at_node tier_cluster) True tier_state =
       Inr (None, map at_node tier_cluster, tier_state\<lparr>writer := [CanNotFindDiskType ''nvme'' 7]\<rparr>)"
proof -
  have none: "\<forall>d \<in> set (keepDataNodesSorted (tier_move_env all_succeed) ''nvme'' (map at_node tier_cluster)).
                \<not> viableDestination (tier_move_env all_succeed) ''nvme'' replicas_of_7 d"
    by (simp add: viableDestination_def cluster_defs)
  from first_viable_destination_is_chosen [where env = "tier_move_env all_succeed" and vid = 7
      and locations = replicas_of_7 and t = "''nvme''" and ls = "map at_node tier_cluster"
      and ap = True and st = tier_state, OF locations_of_7] none
  have nvme: "doVolumeTierMove (tier_move_env all_succeed) 7 ''nvme'' (map at_node tier_cluster) True tier_state =
       Inr (None, map at_node tier_cluster, tier_state\<lparr>writer := [CanNotFindDiskType ''nvme'' 7]\<rparr>)"
    by (simp add: cluster_defs)
  have np: "\<forall>d \<in> set [at_node node1]. \<not> viableDestination (tier_move_env all_succeed) ''ssd'' replicas_of_7 d"
    by (simp add: node1_not_viable)
  from first_viable_destination_is_chosen [where env = "tier_move_env all_succeed" and vid = 7
      and locations = replicas_of_7 and t = "''ssd''" and ls = "map at_node tier_cluster" and pre = "[at_node node1]" and dst = "at_node node4"
      and post = "[at_node node2, at_node node3, at_node node5]" and ap = False and st = tier_state,
      OF locations_of_7]
    sorted_cluster [of all_succeed] np node4_viable [of all_succeed]
  have "doVolumeTierMove (tier_move_env all_succeed) 7 ''ssd'' (map at_node tier_cluster) False tier_state =
       Inr (None, [at_node node1, at_node (tier_node ''n4'' [] 3), at_node node2, at_node node3, at_node node5],
            tier_state\<lparr>writer := [Moving 7 ''n3'' ''n4'' ''ssd'']\<rparr>)"
    by (simp add: source_for_node4 incrementVolumeCount_def Let_def)
       (simp add: cluster_defs)
  moreover have "map (\<lambda>l. capacityByFreeVolumeCount (tier_move_env all_succeed) ''ssd'' (loc_dataNode l))
         (keepDataNodesSorted (tier_move_env all_succeed) ''ssd'' (map at_node tier_cluster)) = [8, 6, 0, 0, 0]"
    "isOneOf (dnId node1) replicas_of_7"
    by (simp_all add: cluster_defs)
  ultimately show ?thesis
    using locations_of_7 [of all_succeed] sorted_cluster [of all_succeed]
      node1_not_viable [of all_succeed] node4_viable [of all_succeed] nvme
    by simp
qed

lemma free_capacity_has_disk:
  "\<forall>dn. 0 < freeVolumeCount t dn \<longrightarrow> map_of (dnDiskInfos dn) t \<noteq> None"
  by (simp add: freeVolumeCount_def split: option.splits)

text \<open>
  The dry run for volume 7 on the cluster: no call, and the count of \<open>n4\<close> on \<open>ssd\<close>
  goes from 2 to 3.
\<close>

theorem dry_run_changes_one_counter_witness:
  "\<exists>ls' st'. doVolumeTierMove (tier_move_env all_succeed) 7 ''ssd'' (map at_node tier_cluster) False tier_state
        = Inr (None, ls', st')
     \<and> trace st' = [] \<and> replicas st' = replicas tier_state
     \<and> map_of (dnDiskInfos node4) ''ssd'' = Some \<lparr>diVolumeCount = 2, diMaxVolumeCount = 8, diVolumeInfos = []\<rparr>
     \<and> keepDataNodesSorted (tier_move_env all_succeed) ''ssd'' (map at_node tier_cluster) ! 1 = at_node node4
     \<and> ls' = (keepDataNodesSorted (tier_move_env all_succeed) ''ssd'' (map at_node tier_cluster))
               [1 := at_node (tier_node ''n4'' [] 3)]"
proof -
  have cap: "\<forall>dn. 0 < capacityByFreeVolumeCount (tier_move_env all_succeed) ''ssd'' dn
               \<longrightarrow> map_of (dnDiskInfos dn) ''ssd'' \<noteq> None"
    using free_capacity_has_disk by (simp add: tier_move_env_def)
  from dry_run_changes_one_counter [OF cap, of 7 "map at_node tier_cluster" tier_state]
  obtain err ls' st' where
    run: "doVolumeTierMove (tier_move_env all_succeed) 7 ''ssd'' (map at_node tier_cluster) False tier_state
            = Inr (err, ls', st')"
    and frame: "trace st' = trace tier_state" "replicas st' = replicas tier_state"
    by blast
  have ev: "doVolumeTierMove (tier_move_env all_succeed) 7 ''ssd'' (map at_node tier_cluster) False tier_state =
       Inr (None, [at_node node1, at_node (tier_node ''n4'' [] 3), at_node node2, at_node node3, at_node node5],
            tier_state\<lparr>writer := [Moving 7 ''n3'' ''n4'' ''ssd'']\<rparr>)"
    by (simp add: mover_defs cluster_defs)
  from run ev have e: "err = None"
    and l: "ls' = [at_node node1, at_node (tier_node ''n4'' [] 3), at_node node2, at_node node3, at_node node5]"
    by simp_all
  have d: "map_of (dnDiskInfos node4) ''ssd'' = Some \<lparr>diVolumeCount = 2, diMaxVolumeCount = 8, diVolumeInfos = []\<rparr>"
    by (simp add: cluster_defs)
  from run frame e l d show ?thesis
    by (intro exI [of _ ls'] exI [of _ st']) (simp add: sorted_cluster tier_state_def)
qed


text \<open>
  On the cluster, with the deletion on \<open>n1\<close> failing: the deletion on \<open>n2\<close> is still
  sent, one line is written, and \<open>n4\<close> holds the volume.
\<close>

theorem cleanup_failure_is_logged_only_witness:
  "rpcError (tier_move_env (only_fails (DeleteVolume 7 ''n1''))) (DeleteVolume 7 ''n1'') = Some (External ''unavailable'')
   \<and> (\<exists>st'. doMoveOneVolume (tier_move_env (only_fails (DeleteVolume 7 ''n1''))) 7 ''ssd'' replicas_of_7 ''n3''
              (at_node node4) tier_state
            = Inr (None, at_node (tier_node ''n4'' [] 3), st')
        \<and> trace st' = [Call (MarkVolumeReadonly 7 replicas_of_7), Call (LiveMoveVolume 7 ''n3'' ''n4'' ''ssd'' True),
                        Call (DeleteVolume 7 ''n1''), Call (DeleteVolume 7 ''n2'')]
        \<and> writer st' = [FailedToDelete 7 ''n1'' (External ''unavailable'')]
        \<and> ''n4'' \<in> replicas st' 7)"
proof -
  let ?env = "tier_move_env (only_fails (DeleteVolume 7 ''n1''))"
  have mark: "rpcError ?env (MarkVolumeReadonly 7 replicas_of_7) = None"
    by (simp add: tier_move_env_def only_fails_def)
  have copy: "rpcError ?env (LiveMoveVolume 7 ''n3'' (dnId (loc_dataNode (at_node node4))) (ReadableString ?env ''ssd'') True) = None"
    by (simp add: tier_move_env_def only_fails_def)
  have disk: "incrementVolumeCount ''ssd'' (loc_dataNode (at_node node4)) = Some (tier_node ''n4'' [] 3)"
    by (simp add: incrementVolumeCount_def cluster_defs)
  from cleanup_failure_is_logged_only [OF mark copy disk, of tier_state]
  obtain st' where
    "doMoveOneVolume ?env 7 ''ssd'' replicas_of_7 ''n3'' (at_node node4) tier_state
       = Inr (None, (at_node node4)\<lparr>loc_dataNode := tier_node ''n4'' [] 3\<rparr>, st')"
    "trace st' = trace tier_state
        @ [Call (MarkVolumeReadonly 7 replicas_of_7),
           Call (LiveMoveVolume 7 ''n3'' (dnId (loc_dataNode (at_node node4))) (ReadableString ?env ''ssd'') True)]
        @ map (\<lambda>u. Call (DeleteVolume 7 u)) (staleReplicas (dnId (loc_dataNode (at_node node4))) ''n3'' replicas_of_7)"
    "writer st' = writer tier_state
        @ deleteFailures ?env 7 (staleReplicas (dnId (loc_dataNode (at_node node4))) ''n3'' replicas_of_7)"
    "dnId (loc_dataNode (at_node node4)) \<in> replicas st' 7"
    by blast
  then show ?thesis
    by (intro conjI exI [of _ st'])
       (simp_all add: staleReplicas_def deleteFailures_def cluster_defs)
qed


section \<open>Properties of the command\<close>

subsection \<open>The run returns\<close>





subsection \<open>Setup failures\<close>


lemma cluster_candidates:
  "collectVolumeIdsForTierChange scenario_env (scenario_topology tier_cluster) 30000 ''hdd'' '''' 95 3600000000000
     = ([8, 7], None)"
  by (simp add: scenario_defs cluster_defs)

lemma cluster_locations: "allLocationsOf (scenario_topology tier_cluster) = map at_node tier_cluster"
  by (simp add: allLocationsOf_def scenario_topology_def at_node_def)




subsection \<open>One task at a time\<close>

lemma call_tasks: "taskEvents (snd (call env r st)) = taskEvents st"
  by (simp add: call_def Let_def taskEvents_def split: option.splits)

lemma remove_tasks:
  "taskEvents (removeRemainingReplicas env vid d s locs st) = taskEvents st"
  by (simp add: taskEvents_def remove_trace filter_map comp_def)

lemma doMove_tasks:
  assumes "doMoveOneVolume env vid t locations src dst st = Inr (e, d', st')"
  shows "taskEvents st' = taskEvents st"
  using assms
  by (auto simp: doMoveOneVolume_def call_def Let_def taskEvents_def remove_trace filter_map comp_def
      split: option.splits list.splits)

lemma moveTask_tasks:
  assumes "moveTask env vid t locations src dst st = Inr (d', st')"
  shows "taskEvents st' = taskEvents st @ [TaskStarted vid, TaskFinished vid]"
proof -
  from assms obtain e d1 st1 where
    run: "doMoveOneVolume env vid t locations src dst (st\<lparr>trace := trace st @ [TaskStarted vid]\<rparr>) = Inr (e, d1, st1)"
    by (auto simp: moveTask_def split: sum.splits)
  from doMove_tasks [OF run] have "taskEvents st1 = taskEvents st @ [TaskStarted vid]"
    by (simp add: taskEvents_def)
  with assms run show ?thesis
    by (cases e) (auto simp: moveTask_def Let_def taskEvents_def)
qed

lemma doVolumeTierMove_tasks:
  assumes "doVolumeTierMove env vid t ls ap st = Inr (e, ls', st')"
  shows "taskEvents st' = taskEvents st \<or> taskEvents st' = taskEvents st @ [TaskStarted vid, TaskFinished vid]"
proof (cases "GetLocations env vid")
  case None
  with assms show ?thesis by (simp add: doVolumeTierMove_def)
next
  case (Some locations)
  let ?s = "keepDataNodesSorted env t ls"
  show ?thesis
  proof (cases "\<exists>d \<in> set ?s. viableDestination env t locations d")
    case False
    with assms show ?thesis
      by (auto simp: doVolumeTierMove_def Some walk_none taskEvents_def simp del: walkLocations.simps)
  next
    case True
    then obtain pre dst post where sp: "?s = pre @ dst # post"
      and v: "viableDestination env t locations dst"
      and np: "\<forall>d \<in> set pre. \<not> viableDestination env t locations d"
      using split_list_first_prop [of ?s "viableDestination env t locations"] by blast
    let ?src = "pickSource (dnId (loc_dataNode dst)) locations []"
    let ?st1 = "st\<lparr>writer := writer st @ [Moving vid ?src (dnId (loc_dataNode dst)) (ReadableString env t)]\<rparr>"
    show ?thesis
    proof (cases ap)
      case False
      with assms show ?thesis
        by (auto simp: doVolumeTierMove_def Some sp walk_first_viable [OF np v] Let_def taskEvents_def
              simp del: walkLocations.simps split: option.splits)
    next
      case True
      with assms obtain st2 d' st3 where
        acq: "acquireServers ?src (dnId (loc_dataNode dst)) ?st1 = Inr st2"
        and mt: "moveTask env vid t locations ?src dst st2 = Inr (d', st3)" and eq: "st' = st3"
        by (auto simp: doVolumeTierMove_def Some sp walk_first_viable [OF np v] Let_def
              simp del: walkLocations.simps split: sum.splits)
      from acq have "taskEvents st2 = taskEvents st"
        by (auto simp: acquireServers_def taskEvents_def split: if_splits)
      with moveTask_tasks [OF mt] eq show ?thesis by simp
    qed
  qed
qed

lemma moveVolumes_tasks:
  "moveVolumes env t ap vids ls st = Inr (ls', st') \<Longrightarrow>
     \<exists>moved. set moved \<subseteq> set vids
       \<and> taskEvents st' = taskEvents st @ concat (map (\<lambda>v. [TaskStarted v, TaskFinished v]) moved)"
proof (induction vids arbitrary: ls st)
  case Nil
  then show ?case by (intro exI [of _ "[]"]) simp
next
  case (Cons vid vids)
  from Cons.prems obtain e ls1 st1 where
    run: "doVolumeTierMove env vid t ls ap st = Inr (e, ls1, st1)"
    by (auto split: sum.splits)
  let ?st2 = "case e of Some err \<Rightarrow> st1\<lparr>stdout := stdout st1 @ [TierMoveVolumeError vid err]\<rparr> | None \<Rightarrow> st1"
  from Cons.prems run have rest: "moveVolumes env t ap vids ls1 ?st2 = Inr (ls', st')" by simp
  from Cons.IH [OF rest] obtain moved where m: "set moved \<subseteq> set vids"
    and tr: "taskEvents st' = taskEvents ?st2 @ concat (map (\<lambda>v. [TaskStarted v, TaskFinished v]) moved)"
    by blast
  have same: "taskEvents ?st2 = taskEvents st1" by (cases e) (simp_all add: taskEvents_def)
  from doVolumeTierMove_tasks [OF run] show ?case
  proof
    assume "taskEvents st1 = taskEvents st"
    with m tr same show ?thesis by (intro exI [of _ moved]) auto
  next
    assume "taskEvents st1 = taskEvents st @ [TaskStarted vid, TaskFinished vid]"
    with m tr same show ?thesis by (intro exI [of _ "vid # moved"]) auto
  qed
qed

text \<open>
  Claim C2 on the code. In every run of \<open>Do\<close> that returns, the task events of the trace
  are pairs of a start and the end of the same volume, one pair after the other: no task
  starts while another one has not ended. \<open>doVolumeTierMove\<close> waits at line 163 for the task
  it has started, so the loop of \<open>Do\<close> reaches the next volume only then, and nothing is
  left to wait for after the last volume.
\<close>

theorem every_task_ends_before_the_next_starts:
  assumes "Do senv env inp st = Inr (err, st')"
  shows "\<exists>moved. taskEvents st' = taskEvents st @ concat (map (\<lambda>v. [TaskStarted v, TaskFinished v]) moved)"
proof -
  have keep: "taskEvents st' = taskEvents st
    \<Longrightarrow> \<exists>moved. taskEvents st' = taskEvents st @ concat (map (\<lambda>v. [TaskStarted v, TaskFinished v]) moved)"
    by (intro exI [of _ "[]"]) simp
  show ?thesis
  proof (cases "\<exists>fl topo lmt. confirmIsLocked inp = None \<and> parsedFlags inp = Inr fl
            \<and> se_ToDiskType senv (flag_fromDiskType fl) \<noteq> se_ToDiskType senv (flag_toDiskType fl)
            \<and> collectTopologyInfo inp = Inr (topo, lmt)")
    case False
    with assms have "taskEvents st' = taskEvents st"
      by (auto simp: Do_def Let_def taskEvents_def split: option.splits sum.splits if_splits prod.splits)
    then show ?thesis by (rule keep)
  next
    case True
    then obtain fl topo lmt where s: "confirmIsLocked inp = None" "parsedFlags inp = Inr fl"
      "se_ToDiskType senv (flag_fromDiskType fl) \<noteq> se_ToDiskType senv (flag_toDiskType fl)"
      "collectTopologyInfo inp = Inr (topo, lmt)" by blast
    obtain vids where c: "collectVolumeIdsForTierChange senv topo lmt (se_ToDiskType senv (flag_fromDiskType fl))
          (flag_collectionPattern fl) (flag_fullPercent fl) (flag_quietFor fl) = (vids, None)"
      by (simp add: collectVolumeIdsForTierChange_def Let_def)
    let ?st0 = "st\<lparr>activeServers := {},
          stdout := stdout st @ [CollectingQuiet (se_ToDiskType senv (flag_fromDiskType fl)) (quietSecondsOf (flag_quietFor fl)),
                                TierMoveVolumes vids]\<rparr>"
    from assms s c obtain ls' where
      mv: "moveVolumes env (se_ToDiskType senv (flag_toDiskType fl)) (flag_force fl) vids (allLocationsOf topo) ?st0
             = Inr (ls', st')"
      by (auto simp: Do_def Let_def split: sum.splits)
    from moveVolumes_tasks [OF mv] show ?thesis by (auto simp: taskEvents_def)
  qed
qed

text \<open>
  With \<open>-force\<close> and the two candidates 8 and 7, the task of volume 8 has ended before
  anything of volume 7 starts.
\<close>

theorem tasks_run_one_after_another:
  "\<exists>st' moved. Do scenario_env (tier_move_env all_succeed) (tier_input True) tier_state = Inr (None, st')
      \<and> taskEvents st' = concat (map (\<lambda>v. [TaskStarted v, TaskFinished v]) moved)
      \<and> stdout st' = [CollectingQuiet ''hdd'' 3600, TierMoveVolumes [8, 7]]
      \<and> trace st' =
          [TaskStarted 8, Call (MarkVolumeReadonly 8 [replica_on ''n2'']),
           Call (LiveMoveVolume 8 ''n2'' ''n1'' ''ssd'' True), TaskFinished 8,
           TaskStarted 7, Call (MarkVolumeReadonly 7 replicas_of_7),
           Call (LiveMoveVolume 7 ''n3'' ''n4'' ''ssd'' True), Call (DeleteVolume 7 ''n1''),
           Call (DeleteVolume 7 ''n2''), TaskFinished 7]"
proof -
  have first: "doVolumeTierMove (tier_move_env all_succeed) 8 ''ssd'' (map at_node tier_cluster) True
        (tier_state\<lparr>stdout := [CollectingQuiet ''hdd'' 3600, TierMoveVolumes [8, 7]]\<rparr>) =
      Inr (None, [at_node (tier_node ''n1'' [scenario_volume 7 30198988800 1699827200] 1), at_node node4,
                  at_node node2, at_node node3, at_node node5],
           tier_state\<lparr>stdout := [CollectingQuiet ''hdd'' 3600, TierMoveVolumes [8, 7]],
              writer := [Moving 8 ''n2'' ''n1'' ''ssd''],
              replicas := (replicas tier_state)(8 := {''n1''}),
              trace := [TaskStarted 8, Call (MarkVolumeReadonly 8 [replica_on ''n2'']),
                        Call (LiveMoveVolume 8 ''n2'' ''n1'' ''ssd'' True), TaskFinished 8]\<rparr>)"
    by (simp add: mover_defs cluster_defs insert_commute)
  have second: "\<exists>st'. doVolumeTierMove (tier_move_env all_succeed) 7 ''ssd''
        [at_node (tier_node ''n1'' [scenario_volume 7 30198988800 1699827200] 1), at_node node4,
                  at_node node2, at_node node3, at_node node5] True
        (tier_state\<lparr>stdout := [CollectingQuiet ''hdd'' 3600, TierMoveVolumes [8, 7]],
              writer := [Moving 8 ''n2'' ''n1'' ''ssd''],
              replicas := (replicas tier_state)(8 := {''n1''}),
              trace := [TaskStarted 8, Call (MarkVolumeReadonly 8 [replica_on ''n2'']),
                        Call (LiveMoveVolume 8 ''n2'' ''n1'' ''ssd'' True), TaskFinished 8]\<rparr>) =
      Inr (None, [at_node (tier_node ''n1'' [scenario_volume 7 30198988800 1699827200] 1), at_node (tier_node ''n4'' [] 3),
                  at_node node2, at_node node3, at_node node5], st')
      \<and> stdout st' = [CollectingQuiet ''hdd'' 3600, TierMoveVolumes [8, 7]]
      \<and> trace st' = [TaskStarted 8, Call (MarkVolumeReadonly 8 [replica_on ''n2'']),
           Call (LiveMoveVolume 8 ''n2'' ''n1'' ''ssd'' True), TaskFinished 8,
           TaskStarted 7, Call (MarkVolumeReadonly 7 replicas_of_7),
           Call (LiveMoveVolume 7 ''n3'' ''n4'' ''ssd'' True), Call (DeleteVolume 7 ''n1''),
           Call (DeleteVolume 7 ''n2''), TaskFinished 7]"
    by (simp add: mover_defs cluster_defs)
  then obtain st' where s: "doVolumeTierMove (tier_move_env all_succeed) 7 ''ssd''
        [at_node (tier_node ''n1'' [scenario_volume 7 30198988800 1699827200] 1), at_node node4,
                  at_node node2, at_node node3, at_node node5] True
        (tier_state\<lparr>stdout := [CollectingQuiet ''hdd'' 3600, TierMoveVolumes [8, 7]],
              writer := [Moving 8 ''n2'' ''n1'' ''ssd''],
              replicas := (replicas tier_state)(8 := {''n1''}),
              trace := [TaskStarted 8, Call (MarkVolumeReadonly 8 [replica_on ''n2'']),
                        Call (LiveMoveVolume 8 ''n2'' ''n1'' ''ssd'' True), TaskFinished 8]\<rparr>) =
      Inr (None, [at_node (tier_node ''n1'' [scenario_volume 7 30198988800 1699827200] 1), at_node (tier_node ''n4'' [] 3),
                  at_node node2, at_node node3, at_node node5], st')"
      and out: "stdout st' = [CollectingQuiet ''hdd'' 3600, TierMoveVolumes [8, 7]]"
      and tr: "trace st' = [TaskStarted 8, Call (MarkVolumeReadonly 8 [replica_on ''n2'']),
           Call (LiveMoveVolume 8 ''n2'' ''n1'' ''ssd'' True), TaskFinished 8,
           TaskStarted 7, Call (MarkVolumeReadonly 7 replicas_of_7),
           Call (LiveMoveVolume 7 ''n3'' ''n4'' ''ssd'' True), Call (DeleteVolume 7 ''n1''),
           Call (DeleteVolume 7 ''n2''), TaskFinished 7]"
    by blast
  have q: "quietSecondsOf 3600000000000 = 3600" by (simp add: quietSecondsOf_def)
  have st0: "tier_state\<lparr>activeServers := {}\<rparr> = tier_state" "stdout tier_state = []"
    by (simp_all add: tier_state_def)
  have run: "Do scenario_env (tier_move_env all_succeed) (tier_input True) tier_state = Inr (None, st')"
    by (simp add: Do_def tier_input_def scenario_env_def cluster_candidates [unfolded scenario_env_def]
          cluster_locations q st0 first s Let_def)
  from every_task_ends_before_the_next_starts [OF run] obtain moved where
    "taskEvents st' = taskEvents tier_state @ concat (map (\<lambda>v. [TaskStarted v, TaskFinished v]) moved)"
    by blast
  then have "taskEvents st' = concat (map (\<lambda>v. [TaskStarted v, TaskFinished v]) moved)"
    by (simp add: taskEvents_def tier_state_def)
  with run out tr show ?thesis by blast
qed


end
